theory Spec2Isabelle
  imports Complex_Main "HOL-Library.Word"
begin

section \<open>The subway route calculator of Map\_service.cpp\<close>

text \<open>
  The program reads an itinerary from the command line (\<^verbatim>\<open>Name(line) Name(line) ... Name\<close>),
  and prints, for every pair of consecutive stops, the distance along the track, the
  travel time and the great-circle distance. This theory embeds the program function by
  function and proves the properties its specification states.

  Conventions of the embedding:
  \<^item> \<^verbatim>\<open>std::string\<close> is a sequence of bytes: \<^typ>\<open>string\<close>. The Korean literals of the
    source are written as their UTF-8 bytes.
  \<^item> \<^verbatim>\<open>size_t\<close> is \<^typ>\<open>64 word\<close>, so that the subtraction in \<^verbatim>\<open>parseToken\<close> wraps as it
    does in the program.
  \<^item> \<^verbatim>\<open>double\<close> is the IEEE 754 binary64 format: a finite value, an infinity or NaN.
    Every arithmetic operation rounds its exact result to the nearest value of the
    format, a tie to the even significand, and overflows to an infinity. Each operation
    of the source is one operation of the model, rounded on its own.
  \<^item> \<^verbatim>\<open>std::sin\<close>, \<^verbatim>\<open>std::cos\<close> and \<^verbatim>\<open>std::atan2\<close> come from the mathematical library
    of the platform, and no standard fixes their results to the last bit. They are a
    parameter of the model, the record \<open>libm\<close>; what is proved for every \<open>libm\<close>
    holds whatever the library returns.
  \<^item> the member \<^verbatim>\<open>lines\<close> of the \<^verbatim>\<open>Subway\<close> object is state: every member function
    takes the object and returns it.
  \<^item> the conversion \<^verbatim>\<open>(int)\<close> of a value that no \<^verbatim>\<open>int\<close> represents is undefined
    behaviour; the model stops there with a \<open>failure\<close>.
\<close>

datatype failure =
    Out_of_range            \<comment> \<open>\<^verbatim>\<open>std::out_of_range\<close>, thrown by \<^verbatim>\<open>substr\<close>\<close>
  | Undefined_conversion    \<comment> \<open>\<^verbatim>\<open>(int)\<close> of a value that no \<^verbatim>\<open>int\<close> represents\<close>

subsection \<open>The type double\<close>

text \<open>
  The values. One zero stands for the two zeros of the format: they are equal under
  \<^verbatim>\<open>==\<close> and differ only in the sign of a quotient by zero and in the printed sign of a
  zero. The program prints the absolute value of a difference, which is never the negative
  zero, and a straight-line distance only when it is greater than zero; it divides by a
  variable only for the minutes, and an infinite number of minutes has no conversion to
  \<^verbatim>\<open>int\<close> whatever its sign.
\<close>

datatype double = Fin real | PInf | NInf | NaN

text \<open>
  Rounding to the format. \<open>exponent x\<close> is the binary exponent of \<open>x\<close>, at least
  \<open>- 1022\<close> (below \<open>2\<^sup>-\<^sup>1\<^sup>0\<^sup>2\<^sup>2\<close> the values are subnormal and lie \<open>2\<^sup>-\<^sup>1\<^sup>0\<^sup>7\<^sup>4\<close> apart); the
  values of the format around \<open>x\<close> are the multiples of \<open>ulp x\<close>, and \<open>round64 x\<close>
  is the nearest of them, the even one of two that are equally near. A value that rounds
  beyond the largest finite one, \<open>2\<^sup>1\<^sup>0\<^sup>2\<^sup>4 - 2\<^sup>9\<^sup>7\<^sup>1\<close>, becomes an infinity.
\<close>

definition pow2 :: "int \<Rightarrow> real" where
  "pow2 k = (if 0 \<le> k then 2 ^ nat k else 1 / 2 ^ nat (- k))"

definition round_half_even :: "real \<Rightarrow> int" where
  "round_half_even x =
     (let f = \<lfloor>x\<rfloor>; r = x - of_int f
      in if r < 1 / 2 then f
         else if 1 / 2 < r then f + 1
         else if even f then f else f + 1)"

fun expo_up :: "nat \<Rightarrow> int \<Rightarrow> real \<Rightarrow> int" where
  "expo_up 0 e x = e"
| "expo_up (Suc n) e x = (if pow2 (e + 1) \<le> x then expo_up n (e + 1) x else e)"

fun expo_down :: "nat \<Rightarrow> int \<Rightarrow> real \<Rightarrow> int" where
  "expo_down 0 e x = e"
| "expo_down (Suc n) e x = (if x < pow2 e then expo_down n (e - 1) x else e)"

definition exponent :: "real \<Rightarrow> int" where
  "exponent x = (if 1 \<le> \<bar>x\<bar> then expo_up 1023 0 \<bar>x\<bar> else expo_down 1022 0 \<bar>x\<bar>)"

definition ulp :: "real \<Rightarrow> real" where
  "ulp x = pow2 (exponent x - 52)"

definition round64 :: "real \<Rightarrow> real" where
  "round64 x = (if x = 0 then 0 else of_int (round_half_even (x / ulp x)) * ulp x)"

definition rnd :: "real \<Rightarrow> double" where
  "rnd x =
     (if 2 ^ 1024 - 2 ^ 970 \<le> \<bar>x\<bar> then (if 0 < x then PInf else NInf)
      else Fin (round64 x))"

text \<open>
  The comparisons \<^verbatim>\<open>==\<close> and \<^verbatim>\<open><\<close>, which are false when an operand is NaN, and the
  arithmetic operations. \<open>rnd\<close> is also the value of a decimal literal of the source.
\<close>

definition d_eq :: "double \<Rightarrow> double \<Rightarrow> bool" where
  "d_eq a b = (a \<noteq> NaN \<and> b \<noteq> NaN \<and> a = b)"

fun d_less :: "double \<Rightarrow> double \<Rightarrow> bool" where
  "d_less NaN b = False"
| "d_less a NaN = False"
| "d_less (Fin x) (Fin y) = (x < y)"
| "d_less NInf b = (b \<noteq> NInf)"
| "d_less a PInf = (a \<noteq> PInf)"
| "d_less a b = False"

fun d_neg :: "double \<Rightarrow> double" where
  "d_neg (Fin x) = Fin (- x)"
| "d_neg PInf = NInf"
| "d_neg NInf = PInf"
| "d_neg NaN = NaN"

fun d_add :: "double \<Rightarrow> double \<Rightarrow> double" where
  "d_add NaN b = NaN"
| "d_add a NaN = NaN"
| "d_add (Fin x) (Fin y) = rnd (x + y)"
| "d_add PInf NInf = NaN"
| "d_add NInf PInf = NaN"
| "d_add (Fin x) b = b"
| "d_add a b = a"

definition d_sub :: "double \<Rightarrow> double \<Rightarrow> double" where
  "d_sub a b = d_add a (d_neg b)"

fun d_mul :: "double \<Rightarrow> double \<Rightarrow> double" where
  "d_mul NaN b = NaN"
| "d_mul a NaN = NaN"
| "d_mul (Fin x) (Fin y) = rnd (x * y)"
| "d_mul a b =
     (if a = Fin 0 \<or> b = Fin 0 then NaN
      else if d_less (Fin 0) a = d_less (Fin 0) b then PInf else NInf)"

fun d_div :: "double \<Rightarrow> double \<Rightarrow> double" where
  "d_div NaN b = NaN"
| "d_div a NaN = NaN"
| "d_div (Fin x) (Fin y) =
     (if y = 0 then (if x = 0 then NaN else if 0 < x then PInf else NInf)
      else rnd (x / y))"
| "d_div (Fin x) b = Fin 0"
| "d_div a (Fin y) = (if d_less (Fin 0) a = (0 \<le> y) then PInf else NInf)"
| "d_div a b = NaN"

text \<open>\<^verbatim>\<open>std::abs\<close> and \<^verbatim>\<open>std::sqrt\<close>; the square root is rounded like an arithmetic operation.\<close>

fun d_abs :: "double \<Rightarrow> double" where
  "d_abs (Fin x) = Fin \<bar>x\<bar>"
| "d_abs NaN = NaN"
| "d_abs a = PInf"

fun d_sqrt :: "double \<Rightarrow> double" where
  "d_sqrt (Fin x) = (if x < 0 then NaN else rnd (sqrt x))"
| "d_sqrt PInf = PInf"
| "d_sqrt a = NaN"

text \<open>
  The mathematical library. A sine or cosine of an infinity or of NaN is NaN, and so is
  \<^verbatim>\<open>atan2\<close> of a NaN; all other results are the library's.
\<close>

record libm =
  l_sin :: "real \<Rightarrow> double"
  l_cos :: "real \<Rightarrow> double"
  l_atan2 :: "double \<Rightarrow> double \<Rightarrow> double"

fun std_sin :: "libm \<Rightarrow> double \<Rightarrow> double" where
  "std_sin m (Fin x) = l_sin m x"
| "std_sin m a = NaN"

fun std_cos :: "libm \<Rightarrow> double \<Rightarrow> double" where
  "std_cos m (Fin x) = l_cos m x"
| "std_cos m a = NaN"

definition std_atan2 :: "libm \<Rightarrow> double \<Rightarrow> double \<Rightarrow> double" where
  "std_atan2 m y x = (if y = NaN \<or> x = NaN then NaN else l_atan2 m y x)"

text \<open>
  What the three functions compute: the sine, the cosine, and the angle of the point
  \<open>(x, y)\<close>, in \<open>(- pi, pi]\<close>. A library is accurate when its results at finite arguments
  are finite and within \<open>2\<^sup>-\<^sup>4\<^sup>0\<close> of these; the libraries in use are far more accurate.
  \<open>libm_exact\<close> is a library that returns the nearest value of the format at finite
  arguments; it serves as an instance of an accurate library.
\<close>

definition atan2 :: "real \<Rightarrow> real \<Rightarrow> real" where
  "atan2 y x =
     (if 0 < x then arctan (y / x)
      else if x < 0 \<and> 0 \<le> y then arctan (y / x) + pi
      else if x < 0 \<and> y < 0 then arctan (y / x) - pi
      else if 0 < y then pi / 2
      else if y < 0 then - (pi / 2)
      else 0)"

definition near :: "double \<Rightarrow> real \<Rightarrow> bool" where
  "near d v = (case d of Fin z \<Rightarrow> \<bar>z - v\<bar> \<le> 1 / 2 ^ 40 | _ \<Rightarrow> False)"

definition libm_accurate :: "libm \<Rightarrow> bool" where
  "libm_accurate m =
     ((\<forall>x. near (l_sin m x) (sin x)) \<and> (\<forall>x. near (l_cos m x) (cos x))
      \<and> (\<forall>y x. near (l_atan2 m (Fin y) (Fin x)) (atan2 y x)))"

definition libm_exact :: libm where
  "libm_exact =
     \<lparr>l_sin = (\<lambda>x. rnd (sin x)), l_cos = (\<lambda>x. rnd (cos x)),
      l_atan2 = (\<lambda>y x. case (y, x) of (Fin v, Fin u) \<Rightarrow> rnd (atan2 v u) | _ \<Rightarrow> NaN)\<rparr>"

text \<open>\<^verbatim>\<open>std::round\<close>: to the nearest integer, halfway cases away from zero.\<close>

fun std_round :: "double \<Rightarrow> double" where
  "std_round (Fin x) = Fin (if 0 \<le> x then of_int \<lfloor>x + 1 / 2\<rfloor> else of_int \<lceil>x - 1 / 2\<rceil>)"
| "std_round a = a"

text \<open>
  The conversion \<^verbatim>\<open>(int)\<close> truncates towards zero; its result is undefined when the
  truncated value is not an \<^verbatim>\<open>int\<close> (32 bits), and for an infinity and NaN.
\<close>

fun to_int :: "double \<Rightarrow> failure + int" where
  "to_int (Fin x) =
     (let t = (if 0 \<le> x then \<lfloor>x\<rfloor> else \<lceil>x\<rceil>)
      in if - (2 ^ 31) \<le> t \<and> t < 2 ^ 31 then Inr t else Inl Undefined_conversion)"
| "to_int a = Inl Undefined_conversion"

text \<open>Decimal output of an \<^verbatim>\<open>int\<close> by \<^verbatim>\<open>operator<<\<close>.\<close>

definition digit_char :: "nat \<Rightarrow> char" where
  "digit_char d = ''0123456789'' ! d"

function string_of_nat :: "nat \<Rightarrow> string" where
  "string_of_nat n =
     (if n < 10 then [digit_char n] else string_of_nat (n div 10) @ [digit_char (n mod 10)])"
  by pat_completeness auto
termination
  by (relation "measure (\<lambda>n. n)") auto

declare string_of_nat.simps [simp del]

definition string_of_int :: "int \<Rightarrow> string" where
  "string_of_int i = (if i < 0 then ''-'' @ string_of_nat (nat (- i)) else string_of_nat (nat i))"

text \<open>
  Output of a \<^verbatim>\<open>double\<close> under \<^verbatim>\<open>std::fixed << std::setprecision(1)\<close>: the exact value
  rounded to one digit after the point, a halfway case to the even digit. The program
  prints a track distance only when the minutes are an \<^verbatim>\<open>int\<close>, and then it is finite, and
  a straight-line distance only when it is greater than 0: it never prints NaN or the
  negative infinity.
\<close>

fun fixed1 :: "double \<Rightarrow> string" where
  "fixed1 (Fin x) =
     (let m = nat (round_half_even (\<bar>x\<bar> * 10))
      in (if x < 0 then ''-'' else []) @ string_of_nat (m div 10) @ ''.'' @ [digit_char (m mod 10)])"
| "fixed1 PInf = ''inf''"
| "fixed1 NInf = ''-inf''"
| "fixed1 NaN = ''nan''"

text \<open>
  \<^verbatim>\<open>std::string::find (char)\<close> returns the index of the first occurrence, or \<open>npos\<close>;
  \<^verbatim>\<open>substr (pos, n)\<close> throws when \<open>pos\<close> is beyond the end and otherwise returns at most
  \<open>n\<close> bytes from \<open>pos\<close> on.
\<close>

definition npos :: "64 word" where
  "npos = - 1"

primrec find_first :: "char \<Rightarrow> string \<Rightarrow> nat option" where
  "find_first c [] = None"
| "find_first c (x # xs) = (if x = c then Some 0 else map_option Suc (find_first c xs))"

definition str_find :: "string \<Rightarrow> char \<Rightarrow> 64 word" where
  "str_find s c = (case find_first c s of None \<Rightarrow> npos | Some i \<Rightarrow> word_of_nat i)"

definition substr :: "string \<Rightarrow> 64 word \<Rightarrow> 64 word \<Rightarrow> failure + string" where
  "substr s pos n =
     (if length s < unat pos then Inl Out_of_range
      else Inr (take (min (unat n) (length s - unat pos)) (drop (unat pos) s)))"

subsection \<open>Constants and degrees (lines 12--19)\<close>

definition R :: double where
  "R = rnd 6371.0"

definition PI :: double where
  "PI = rnd 3.14159265358979323846"

definition toRad :: "double \<Rightarrow> double" where
  "toRad degree = d_div (d_mul degree PI) (rnd 180.0)"

subsection \<open>Stations and lines (lines 21--52)\<close>

record Station =
  name :: string
  distFromStart :: double
  lat :: double
  lon :: double

record Line =
  lineName :: string
  stations :: "Station list"
  avgSpeed :: double

text \<open>The two constructors of \<^verbatim>\<open>Line\<close>: the default one, and the one of line 39.\<close>

definition Line_default :: Line where
  "Line_default = \<lparr>lineName = [], stations = [], avgSpeed = rnd 40.0\<rparr>"

definition Line_init :: "string \<Rightarrow> double \<Rightarrow> Line" where
  "Line_init nm speed = \<lparr>lineName = nm, stations = [], avgSpeed = speed\<rparr>"

text \<open>\<^verbatim>\<open>findStation\<close> returns a pointer to the first station of that name, or \<^verbatim>\<open>nullptr\<close>.\<close>

definition findStation :: "Line \<Rightarrow> string \<Rightarrow> Station option" where
  "findStation l nm = find (\<lambda>s. name s = nm) (stations l)"

text \<open>
  \<^verbatim>\<open>addStation\<close>; a call that leaves the coordinates out passes the defaults \<open>0.0\<close>,
  \<open>0.0\<close>.
\<close>

definition addStation :: "Line \<Rightarrow> string \<Rightarrow> double \<Rightarrow> double \<Rightarrow> double \<Rightarrow> Line" where
  "addStation l nm dst la lo =
     l\<lparr>stations := stations l @ [\<lparr>name = nm, distFromStart = dst, lat = la, lon = lo\<rparr>]\<rparr>"

subsection \<open>The literals of the source\<close>

text \<open>Station names of the built-in data: Gyeyang, Gimpo Airport, Magongnaru (line arex).\<close>

definition st_gyeyang :: string where
  "st_gyeyang = [CHR 0xEA, CHR 0xB3, CHR 0x84, CHR 0xEC, CHR 0x96, CHR 0x91, CHR 0xEC, CHR 0x97, CHR 0xAD]"

definition st_gimpo_airport :: string where
  "st_gimpo_airport = [CHR 0xEA, CHR 0xB9, CHR 0x80, CHR 0xED, CHR 0x8F, CHR 0xAC, CHR 0xEA, CHR 0xB3,
     CHR 0xB5, CHR 0xED, CHR 0x95, CHR 0xAD, CHR 0xEC, CHR 0x97, CHR 0xAD]"

definition st_magongnaru :: string where
  "st_magongnaru = [CHR 0xEB, CHR 0xA7, CHR 0x88, CHR 0xEA, CHR 0xB3, CHR 0xA1, CHR 0xEB, CHR 0x82,
     CHR 0x98, CHR 0xEB, CHR 0xA3, CHR 0xA8, CHR 0xEC, CHR 0x97, CHR 0xAD]"

text \<open>Gaehwa, Gayang, Yeomchang, Dangsan, Yeouido, Noryangjin (line 9).\<close>

definition st_gaehwa :: string where
  "st_gaehwa = [CHR 0xEA, CHR 0xB0, CHR 0x9C, CHR 0xED, CHR 0x99, CHR 0x94]"

definition st_gayang :: string where
  "st_gayang = [CHR 0xEA, CHR 0xB0, CHR 0x80, CHR 0xEC, CHR 0x96, CHR 0x91]"

definition st_yeomchang :: string where
  "st_yeomchang = [CHR 0xEC, CHR 0x97, CHR 0xBC, CHR 0xEC, CHR 0xB0, CHR 0xBD]"

definition st_dangsan :: string where
  "st_dangsan = [CHR 0xEB, CHR 0x8B, CHR 0xB9, CHR 0xEC, CHR 0x82, CHR 0xB0]"

definition st_yeouido :: string where
  "st_yeouido = [CHR 0xEC, CHR 0x97, CHR 0xAC, CHR 0xEC, CHR 0x9D, CHR 0x98, CHR 0xEB, CHR 0x8F, CHR 0x84]"

definition st_noryangjin :: string where
  "st_noryangjin = [CHR 0xEB, CHR 0x85, CHR 0xB8, CHR 0xEB, CHR 0x9F, CHR 0x89, CHR 0xEC, CHR 0xA7,
     CHR 0x84, CHR 0xEC, CHR 0x97, CHR 0xAD]"

text \<open>
  The two error messages up to the opening parenthesis (``Error: no such line('' and
  ``Error: station not found (''), the unit of the minutes followed by a comma and a
  blank, and the label of the straight-line distance.
\<close>

definition msg_no_line :: string where
  "msg_no_line = ''Error: '' @ [CHR 0xEC, CHR 0xA1, CHR 0xB4, CHR 0xEC, CHR 0x9E, CHR 0xAC, CHR 0xED,
     CHR 0x95, CHR 0x98, CHR 0xEC, CHR 0xA7, CHR 0x80, CHR 0x20, CHR 0xEC, CHR 0x95, CHR 0x8A, CHR 0xEB,
     CHR 0x8A, CHR 0x94, CHR 0x20, CHR 0xEB, CHR 0x85, CHR 0xB8, CHR 0xEC, CHR 0x84, CHR 0xA0] @ ''(''"

definition msg_no_station :: string where
  "msg_no_station = ''Error: '' @ [CHR 0xEC, CHR 0x97, CHR 0xAD, CHR 0xEC, CHR 0x9D, CHR 0x84, CHR 0x20,
     CHR 0xEC, CHR 0xB0, CHR 0xBE, CHR 0xEC, CHR 0x9D, CHR 0x84, CHR 0x20, CHR 0xEC, CHR 0x88, CHR 0x98,
     CHR 0x20, CHR 0xEC, CHR 0x97, CHR 0x86, CHR 0xEC, CHR 0x9D, CHR 0x8C] @ '' (''"

definition str_minutes :: string where
  "str_minutes = [CHR 0xEB, CHR 0xB6, CHR 0x84] @ '', ''"

definition str_straight :: string where
  "str_straight = '', '' @ [CHR 0xEC, CHR 0xA7, CHR 0x81, CHR 0xEC, CHR 0x84, CHR 0xA0] @ '' ''"

definition csv_file_name :: string where
  "csv_file_name = [CHR 0xEA, CHR 0xB5, CHR 0xAD, CHR 0xEA, CHR 0xB0, CHR 0x80, CHR 0xEC, CHR 0xB2,
     CHR 0xA0, CHR 0xEB, CHR 0x8F, CHR 0x84, CHR 0xEA, CHR 0xB3, CHR 0xB5, CHR 0xEB, CHR 0x8B, CHR 0xA8,
     CHR 0x5F, CHR 0xEC, CHR 0x84, CHR 0x9C, CHR 0xEC, CHR 0x9A, CHR 0xB8, CHR 0xEA, CHR 0xB5, CHR 0x90,
     CHR 0xED, CHR 0x86, CHR 0xB5, CHR 0xEA, CHR 0xB3, CHR 0xB5, CHR 0xEC, CHR 0x82, CHR 0xAC, CHR 0x20,
     CHR 0xEC, CHR 0x97, CHR 0xAD, CHR 0xEA, CHR 0xB0, CHR 0x84, CHR 0xEA, CHR 0xB1, CHR 0xB0, CHR 0xEB,
     CHR 0xA6, CHR 0xAC] @ ''_20231231.csv''"

definition usage_text :: string where
  "usage_text = ''Usage: ./a.out <Start(line)> <Transfer(line)> ... <End>'' @ [CHR 0x0A]
     @ ''Ex: ./a.out '' @ st_gyeyang @ ''(arex) '' @ st_gimpo_airport @ ''(9) '' @ st_noryangjin
     @ [CHR 0x0A]"

subsection \<open>The class Subway (lines 64--163)\<close>

record Subway =
  lines :: "string \<rightharpoonup> Line"

definition Subway_init :: Subway where
  "Subway_init = \<lparr>lines = Map.empty\<rparr>"

text \<open>
  The great-circle distance by the haversine formula (lines 70--80). The integers
  \<open>0\<close>, \<open>1\<close> and \<open>2\<close> of the source convert to the same values of the format.
\<close>

definition calcStraightDist :: "libm \<Rightarrow> double \<Rightarrow> double \<Rightarrow> double \<Rightarrow> double \<Rightarrow> double" where
  "calcStraightDist m lat1 lon1 lat2 lon2 =
     (if d_eq lat1 (Fin 0) \<or> d_eq lat2 (Fin 0) then rnd 0.0
      else
        let dLat = toRad (d_sub lat2 lat1);
            dLon = toRad (d_sub lon2 lon1);
            a = d_add (d_mul (std_sin m (d_div dLat (Fin 2))) (std_sin m (d_div dLat (Fin 2))))
                  (d_mul (d_mul (d_mul (std_cos m (toRad lat1)) (std_cos m (toRad lat2)))
                                (std_sin m (d_div dLon (Fin 2))))
                         (std_sin m (d_div dLon (Fin 2))));
            c = d_mul (Fin 2) (std_atan2 m (d_sqrt a) (d_sqrt (d_sub (Fin 1) a)))
        in d_mul R c)"

text \<open>
  \<^verbatim>\<open>loadData\<close> (lines 84--120). What it reads from the file never reaches \<^verbatim>\<open>lines\<close>: it
  opens the file, skips one line, and then stores the two built-in lines. Its warning on
  the error stream is not modelled.
\<close>

definition arex_line :: Line where
  "arex_line =
     addStation
       (addStation
         (addStation (Line_init ''arex'' (rnd 60.0)) st_gyeyang (rnd 0.0) (rnd 37.571) (rnd 126.736))
         st_gimpo_airport (rnd 6.6) (rnd 37.562) (rnd 126.801))
       st_magongnaru (rnd 9.5) (rnd 37.567) (rnd 126.829)"

definition line9 :: Line where
  "line9 =
     addStation
      (addStation
        (addStation
          (addStation
            (addStation
              (addStation
                (addStation (Line_init ''9'' (rnd 47.0)) st_gaehwa (rnd 0.0) (rnd 0.0) (rnd 0.0))
                st_gimpo_airport (rnd 3.6) (rnd 37.562) (rnd 126.801))
              st_gayang (rnd 10.5) (rnd 0.0) (rnd 0.0))
            st_yeomchang (rnd 13.0) (rnd 0.0) (rnd 0.0))
          st_dangsan (rnd 16.5) (rnd 0.0) (rnd 0.0))
        st_yeouido (rnd 19.0) (rnd 0.0) (rnd 0.0))
      st_noryangjin (rnd 22.0) (rnd 37.514) (rnd 126.942)"

definition loadData :: "Subway \<Rightarrow> string \<Rightarrow> Subway" where
  "loadData sw filename =
     (let sw1 = sw\<lparr>lines := (lines sw)(''arex'' \<mapsto> arex_line)\<rparr>
      in sw1\<lparr>lines := (lines sw1)(''9'' \<mapsto> line9)\<rparr>)"

text \<open>
  \<^verbatim>\<open>lines[key]\<close>: \<^verbatim>\<open>operator[]\<close> of \<^verbatim>\<open>std::map\<close> inserts a default-constructed line when
  the key is absent, and returns the line stored under the key.
\<close>

definition lines_at :: "Subway \<Rightarrow> string \<Rightarrow> Line \<times> Subway" where
  "lines_at sw key =
     (case lines sw key of
        None \<Rightarrow> (Line_default, sw\<lparr>lines := (lines sw)(key \<mapsto> Line_default)\<rparr>)
      | Some l \<Rightarrow> (l, sw))"

text \<open>
  \<^verbatim>\<open>calculateSegment\<close> (lines 123--162). The minutes of a line whose average speed is
  zero are an infinity or NaN, for which the conversion to \<^verbatim>\<open>int\<close> is undefined.
\<close>

definition calculateSegment ::
  "libm \<Rightarrow> Subway \<Rightarrow> string \<Rightarrow> string \<Rightarrow> string \<Rightarrow> (failure + string) \<times> Subway" where
  "calculateSegment m sw startName endName lineTag =
     (let targetLine = lineTag
      in if lines sw targetLine = None
         then (Inr (msg_no_line @ targetLine @ '')''), sw)
         else
           let (line, sw') = lines_at sw targetLine;
               s1 = findStation line startName;
               s2 = findStation line endName
           in case (s1, s2) of
                (Some st1, Some st2) \<Rightarrow>
                  let distance = d_abs (d_sub (distFromStart st1) (distFromStart st2));
                      straightDist = calcStraightDist m (lat st1) (lon st1) (lat st2) (lon st2);
                      timeMinutes = d_mul (d_div distance (avgSpeed line)) (rnd 60.0)
                  in (case to_int (std_round timeMinutes) of
                        Inl e \<Rightarrow> (Inl e, sw')
                      | Inr minutes \<Rightarrow>
                          (Inr (fixed1 distance @ ''km''
                                @ ''('' @ string_of_int minutes @ str_minutes
                                @ startName @ ''-'' @ endName
                                @ (if d_less (Fin 0) straightDist
                                   then str_straight @ fixed1 straightDist @ ''km''
                                   else [])
                                @ '')''), sw'))
              | _ \<Rightarrow> (Inr (msg_no_station @ startName @ '' or '' @ endName @ '')''), sw'))"

subsection \<open>The command line (lines 165--214)\<close>

text \<open>\<^verbatim>\<open>parseToken\<close>: the results are the two reference parameters, \<open>(name, line)\<close>.\<close>

definition parseToken :: "string \<Rightarrow> failure + (string \<times> string)" where
  "parseToken token =
     (let openParen = str_find token (CHR ''('');
          closeParen = str_find token (CHR '')'')
      in if openParen \<noteq> npos \<and> closeParen \<noteq> npos
         then (case substr token 0 openParen of
                 Inl e \<Rightarrow> Inl e
               | Inr nm \<Rightarrow>
                   (case substr token (openParen + 1) (closeParen - openParen - 1) of
                      Inl e \<Rightarrow> Inl e
                    | Inr tag \<Rightarrow> Inr (nm, tag)))
         else Inr (token, []))"

text \<open>
  The loop of \<^verbatim>\<open>main\<close> (lines 197--209) over \<open>argv\<close>, whose element 0 is the name of the
  program: \<open>i\<close> is the loop variable and \<open>result\<close> the report so far. An exception or an
  undefined conversion ends the run.
\<close>

function route_loop :: "libm \<Rightarrow> Subway \<Rightarrow> string list \<Rightarrow> nat \<Rightarrow> string \<Rightarrow> failure + string" where
  "route_loop m sw argv i result =
     (if i + 1 < length argv
      then (case parseToken (argv ! i) of
              Inl e \<Rightarrow> Inl e
            | Inr (currentName, currentLine) \<Rightarrow>
                (case parseToken (argv ! (i + 1)) of
                   Inl e \<Rightarrow> Inl e
                 | Inr (nextName, nextLine_unused) \<Rightarrow>
                     (case calculateSegment m sw currentName nextName currentLine of
                        (Inl e, sw') \<Rightarrow> Inl e
                      | (Inr seg, sw') \<Rightarrow>
                          route_loop m sw' argv (i + 1)
                            ((if 1 < i then result @ '', '' else result) @ seg))))
      else Inr result)"
  by pat_completeness auto
termination
  by (relation "measure (\<lambda>(m, sw, argv, i, result). length argv - i)") auto

declare route_loop.simps [simp del]

text \<open>\<^verbatim>\<open>main\<close>: the exit status and what is written to the standard output.\<close>

definition main :: "libm \<Rightarrow> string list \<Rightarrow> failure + (int \<times> string)" where
  "main m argv =
     (if length argv < 3 then Inr (1, usage_text)
      else
        let subwaySystem = loadData Subway_init csv_file_name
        in case route_loop m subwaySystem argv 1 [] of
             Inl e \<Rightarrow> Inl e
           | Inr result \<Rightarrow> Inr (0, result @ [CHR 0x0A]))"

subsection \<open>Notions of the specification\<close>

text \<open>
  The specification speaks of the first occurrence of a character in a token, of the text
  before the first \<open>(\<close> and of the text between the first \<open>(\<close> and the first
  \<open>)\<close>. These definitions follow its words; the theorems compare \<open>parseToken\<close>
  with them. A character that does not occur has the length of the token as its index.
\<close>

definition spec_first_index :: "char \<Rightarrow> string \<Rightarrow> nat" where
  "spec_first_index c t = length (takeWhile (\<lambda>x. x \<noteq> c) t)"

definition spec_name_before :: "string \<Rightarrow> string" where
  "spec_name_before t = take (spec_first_index (CHR ''('') t) t"

definition spec_line_between :: "string \<Rightarrow> string" where
  "spec_line_between t =
     (let p = spec_first_index (CHR ''('') t; q = spec_first_index (CHR '')'') t
      in take (q - p - 1) (drop (p + 1) t))"

definition spec_parseToken :: "string \<Rightarrow> string \<times> string" where
  "spec_parseToken t =
     (if CHR ''('' \<in> set t \<and> CHR '')'' \<in> set t
      then (spec_name_before t, spec_line_between t)
      else (t, []))"

text \<open>
  The name and the line tag that \<open>parseToken\<close> returns for a token, the result of the
  segment from a token to the next one, the report of a list of segment results (joined by
  a comma and a blank), and the results of a list of computations of which the first
  failure ends the run.
\<close>

definition token_name :: "string \<Rightarrow> string" where
  "token_name t = (case parseToken t of Inr (nm, tag) \<Rightarrow> nm | Inl e \<Rightarrow> [])"

definition token_line :: "string \<Rightarrow> string" where
  "token_line t = (case parseToken t of Inr (nm, tag) \<Rightarrow> tag | Inl e \<Rightarrow> [])"

definition segment_result :: "libm \<Rightarrow> Subway \<Rightarrow> string \<Rightarrow> string \<Rightarrow> failure + string" where
  "segment_result m sw t t' =
     fst (calculateSegment m sw (token_name t) (token_name t') (token_line t))"

fun join_segments :: "string list \<Rightarrow> string" where
  "join_segments [] = []"
| "join_segments [s] = s"
| "join_segments (s # r # rs) = s @ '', '' @ join_segments (r # rs)"

primrec collect :: "(failure + 'a) list \<Rightarrow> failure + 'a list" where
  "collect [] = Inr []"
| "collect (x # xs) =
     (case x of
        Inl e \<Rightarrow> Inl e
      | Inr v \<Rightarrow> (case collect xs of Inl e \<Rightarrow> Inl e | Inr vs \<Rightarrow> Inr (v # vs)))"

text \<open>The number that a decimal digit and a string of decimal digits denote.\<close>

definition digit_value :: "char \<Rightarrow> nat" where
  "digit_value c = of_char c - 48"

definition digits_value :: "string \<Rightarrow> nat" where
  "digits_value s = foldl (\<lambda>acc c. 10 * acc + digit_value c) 0 s"

subsection \<open>Notions of the proofs\<close>

text \<open>
  A network with one line of two stations whose latitudes are the largest power of two
  of the format and its negative; the difference of the two latitudes overflows.
\<close>

definition far_line :: Line where
  "far_line =
     addStation
       (addStation (Line_init ''far'' (rnd 60.0)) ''A'' (rnd 0.0) (Fin (2 ^ 1023)) (rnd 1.0))
       ''B'' (rnd 9.5) (Fin (- (2 ^ 1023))) (rnd 1.0)"

definition far_network :: Subway where
  "far_network = \<lparr>lines = [''far'' \<mapsto> far_line]\<rparr>"

text \<open>
  A double that is finite and lies between two bounds, and a double that is NaN or finite
  and bounded in absolute value.
\<close>

definition d_between :: "double \<Rightarrow> real \<Rightarrow> real \<Rightarrow> bool" where
  "d_between d lo hi = (case d of Fin y \<Rightarrow> lo \<le> y \<and> y \<le> hi | _ \<Rightarrow> False)"

definition nan_or_within :: "double \<Rightarrow> real \<Rightarrow> bool" where
  "nan_or_within d B = (case d of Fin y \<Rightarrow> \<bar>y\<bar> \<le> B | NaN \<Rightarrow> True | _ \<Rightarrow> False)"

section \<open>Properties\<close>

subsection \<open>Rounding to the format\<close>

lemma pow2_powr: "pow2 k = 2 powr (of_int k)"
  by (simp add: pow2_def powr_real_of_int divide_inverse)

lemma pow2_pos: "0 < pow2 k"
  by (simp add: pow2_powr)

lemma pow2_mono: "a \<le> b \<Longrightarrow> pow2 a \<le> pow2 b"
  by (simp add: pow2_powr)

lemma pow2_le_imp_le: "pow2 a \<le> pow2 b \<Longrightarrow> a \<le> b"
  by (simp add: pow2_powr)

lemma round_half_even_nearest: "\<bar>of_int (round_half_even x) - x\<bar> \<le> 1 / 2"
proof -
  have "of_int \<lfloor>x\<rfloor> \<le> x" "x < of_int \<lfloor>x\<rfloor> + 1"
    by linarith+
  then show ?thesis
    by (auto simp: round_half_even_def Let_def)
qed

lemma round_half_even_unique:
  assumes "of_int n - 1 / 2 < y" and "y < of_int n + 1 / 2"
  shows "round_half_even y = n"
proof -
  have "\<lfloor>y\<rfloor> = n \<or> \<lfloor>y\<rfloor> = n - 1"
    using assms by linarith
  then show ?thesis
  proof
    assume f: "\<lfloor>y\<rfloor> = n"
    then have "y - of_int n < 1 / 2"
      using assms by linarith
    with f show ?thesis
      by (simp add: round_half_even_def Let_def)
  next
    assume f: "\<lfloor>y\<rfloor> = n - 1"
    then have "1 / 2 < y - of_int (n - 1)"
      using assms by simp
    with f show ?thesis
      by (simp add: round_half_even_def Let_def)
  qed
qed

lemma round_half_even_int: "round_half_even (of_int n) = n"
  by (simp add: round_half_even_def)

lemma round_half_even_minus: "round_half_even (- x) = - round_half_even x"
proof (cases "x = of_int \<lfloor>x\<rfloor>")
  case True
  then have "round_half_even (- of_int \<lfloor>x\<rfloor>) = - round_half_even (of_int \<lfloor>x\<rfloor>)"
    using round_half_even_int [of "- \<lfloor>x\<rfloor>"] round_half_even_int [of "\<lfloor>x\<rfloor>"] by simp
  with True show ?thesis
    by simp
next
  case False
  then have lt: "of_int \<lfloor>x\<rfloor> < x" "x < of_int \<lfloor>x\<rfloor> + 1"
    by linarith+
  then have f: "\<lfloor>- x\<rfloor> = - \<lfloor>x\<rfloor> - 1"
    by linarith
  define r where "r = x - of_int \<lfloor>x\<rfloor>"
  have r: "- x - of_int (- \<lfloor>x\<rfloor> - 1) = 1 - r"
    by (simp add: r_def)
  consider "r < 1 / 2" | "1 / 2 < r" | "r = 1 / 2"
    by linarith
  then show ?thesis
  proof cases
    case 1
    then show ?thesis
      unfolding round_half_even_def Let_def f r r_def [symmetric] by simp
  next
    case 2
    then show ?thesis
      unfolding round_half_even_def Let_def f r r_def [symmetric] by simp
  next
    case 3
    then show ?thesis
      unfolding round_half_even_def Let_def f r r_def [symmetric] by simp
  qed
qed

lemma expo_up_le: "pow2 e \<le> x \<Longrightarrow> pow2 (expo_up n e x) \<le> x"
  by (induction n arbitrary: e) simp_all

lemma expo_down_le: "expo_down n e x \<le> e"
proof (induction n arbitrary: e)
  case 0
  show ?case by simp
next
  case (Suc n)
  show ?case
    using Suc [of "e - 1"] by simp
qed

lemma exponent_le:
  assumes "\<bar>x\<bar> \<le> pow2 k" and "0 \<le> k"
  shows "exponent x \<le> k"
proof (cases "1 \<le> \<bar>x\<bar>")
  case True
  then have "pow2 0 \<le> \<bar>x\<bar>"
    by (simp add: pow2_def)
  then have "pow2 (expo_up 1023 0 \<bar>x\<bar>) \<le> \<bar>x\<bar>"
    by (rule expo_up_le)
  with assms(1) have "pow2 (expo_up 1023 0 \<bar>x\<bar>) \<le> pow2 k"
    by linarith
  then have "expo_up 1023 0 \<bar>x\<bar> \<le> k"
    by (rule pow2_le_imp_le)
  with True show ?thesis
    by (simp add: exponent_def)
next
  case False
  then show ?thesis
    using expo_down_le [of 1022 0 "\<bar>x\<bar>"] assms(2) by (simp add: exponent_def)
qed

lemma exponent_minus: "exponent (- x) = exponent x"
  by (simp add: exponent_def)

lemma ulp_pos: "0 < ulp x"
  by (simp add: ulp_def pow2_pos)

lemma ulp_minus: "ulp (- x) = ulp x"
  by (simp add: ulp_def exponent_minus)

lemma ulp_small:
  assumes "\<bar>x\<bar> \<le> 4096"
  shows "ulp x \<le> 1 / 2 ^ 40"
proof -
  have "\<bar>x\<bar> \<le> pow2 12"
    using assms by (simp add: pow2_def)
  then have "exponent x \<le> 12"
    by (rule exponent_le) simp
  then have "exponent x - 52 \<le> - 40"
    by simp
  then have "ulp x \<le> pow2 (- 40)"
    unfolding ulp_def by (rule pow2_mono)
  then show ?thesis
    by (simp add: pow2_def)
qed

lemma round64_error: "\<bar>round64 x - x\<bar> \<le> ulp x / 2"
proof (cases "x = 0")
  case True
  then show ?thesis
    using ulp_pos [of 0] by (simp add: round64_def)
next
  case False
  have u: "0 < ulp x"
    by (rule ulp_pos)
  have "\<bar>of_int (round_half_even (x / ulp x)) - x / ulp x\<bar> * ulp x \<le> 1 / 2 * ulp x"
    using u round_half_even_nearest [of "x / ulp x"] by (intro mult_right_mono) simp_all
  moreover have "of_int (round_half_even (x / ulp x)) * ulp x - x
      = (of_int (round_half_even (x / ulp x)) - x / ulp x) * ulp x"
    using u by (simp add: field_simps)
  then have "\<bar>of_int (round_half_even (x / ulp x)) - x / ulp x\<bar> * ulp x
      = \<bar>of_int (round_half_even (x / ulp x)) * ulp x - x\<bar>"
    using u by (simp add: abs_mult)
  ultimately show ?thesis
    using False by (simp add: round64_def)
qed

lemma round64_minus: "round64 (- x) = - round64 x"
  by (simp add: round64_def ulp_minus round_half_even_minus)

lemma rnd_minus: "rnd (- x) = d_neg (rnd x)"
  by (simp add: rnd_def round64_minus)

lemma rnd_near:
  assumes "\<bar>x\<bar> \<le> 4096"
  shows "\<exists>y. rnd x = Fin y \<and> \<bar>y - x\<bar> \<le> 1 / 2 ^ 40"
proof -
  have "\<bar>x\<bar> < 2 ^ 1024 - 2 ^ 970"
    using assms by simp
  then have "rnd x = Fin (round64 x)"
    by (simp add: rnd_def)
  moreover have "\<bar>round64 x - x\<bar> \<le> 1 / 2 ^ 40"
    using round64_error [of x] ulp_small [OF assms] by linarith
  ultimately show ?thesis
    by blast
qed

lemma rnd_between:
  assumes "lo \<le> x" and "x \<le> hi" and "- 4096 \<le> lo" and "hi \<le> 4096"
  shows "d_between (rnd x) (lo - 1 / 2 ^ 40) (hi + 1 / 2 ^ 40)"
proof -
  have "\<bar>x\<bar> \<le> 4096"
    using assms by linarith
  then obtain y where y: "rnd x = Fin y" "\<bar>y - x\<bar> \<le> 1 / 2 ^ 40"
    using rnd_near by blast
  have "lo - 1 / 2 ^ 40 \<le> y" "y \<le> hi + 1 / 2 ^ 40"
    using y(2) assms(1,2) by linarith+
  then show ?thesis
    by (simp only: d_between_def y(1) double.case simp_thms)
qed

lemma d_abs_neg: "d_abs (d_neg a) = d_abs a"
  by (cases a) simp_all

lemma d_sub_swap: "d_sub b a = d_neg (d_sub a b)"
proof (cases a; cases b)
  fix x y
  assume "a = Fin x" "b = Fin y"
  then show ?thesis
    using rnd_minus [of "x - y"] by (simp add: d_sub_def)
qed (simp_all add: d_sub_def)

lemma d_abs_sub_swap: "d_abs (d_sub a b) = d_abs (d_sub b a)"
  by (simp add: d_sub_swap [of a b] d_abs_neg)

text \<open>The rules that evaluate an operation at given decimal numbers.\<close>

lemma expo_up_numeral:
  "expo_up (numeral k) e x = (if pow2 (e + 1) \<le> x then expo_up (pred_numeral k) (e + 1) x else e)"
  by (simp add: numeral_eq_Suc)

lemma expo_down_numeral:
  "expo_down (numeral k) e x = (if x < pow2 e then expo_down (pred_numeral k) (e - 1) x else e)"
  by (simp add: numeral_eq_Suc)

lemmas fp_eval =
  rnd_def round64_def ulp_def exponent_def expo_up_numeral expo_down_numeral pow2_def
  round_half_even_def Let_def d_sub_def

text \<open>
  Two roundings that exact arithmetic does not show. At 61.5 km and 60 km/h the quotient
  1.025 is not a value of the format, and the product of its rounded value and 60 lies
  just below 61.5: the minutes are 61. The literal \<open>0.35\<close> denotes a double just below
  0.35, which is printed as \<open>0.3\<close>.
\<close>

lemma minutes_rounding:
  "to_int (std_round (d_mul (d_div (rnd 61.5) (rnd 60.0)) (rnd 60.0))) = Inr 61"
  by (simp add: fp_eval)

lemma output_rounding: "fixed1 (rnd 0.35) = ''0.3''"
  by (simp add: fp_eval string_of_nat.simps digit_char_def)

subsection \<open>Searching and slicing a token\<close>

lemma find_first_None: "find_first c s = None \<longleftrightarrow> c \<notin> set s"
  by (induction s) auto

lemma find_first_Some: "c \<in> set s \<Longrightarrow> find_first c s = Some (spec_first_index c s)"
  by (induction s) (auto simp: spec_first_index_def)

lemma spec_first_index_less: "c \<in> set s \<Longrightarrow> spec_first_index c s < length s"
  unfolding spec_first_index_def
  by (induction s) auto

lemma str_find_absent: "c \<notin> set s \<Longrightarrow> str_find s c = npos"
  by (simp add: str_find_def find_first_None [THEN iffD2])

lemma str_find_present:
  "c \<in> set s \<Longrightarrow> str_find s c = word_of_nat (spec_first_index c s)"
  by (simp add: str_find_def find_first_Some)

lemma unat_index:
  assumes "length s < 2 ^ 64" and "i \<le> length s"
  shows "unat (word_of_nat i :: 64 word) = i"
  using assms by (simp add: unat_of_nat)

lemma index_not_npos:
  assumes "length s < 2 ^ 64" and "i < length s"
  shows "(word_of_nat i :: 64 word) \<noteq> npos"
proof
  assume "(word_of_nat i :: 64 word) = npos"
  then have "unat (word_of_nat i :: 64 word) = unat (- 1 :: 64 word)"
    by (simp add: npos_def)
  with assms show False
    by (simp add: unat_of_nat unsigned_minus_1_eq_mask mask_eq_exp_minus_1)
qed

lemma str_find_npos_iff:
  assumes "length s < 2 ^ 64"
  shows "str_find s c = npos \<longleftrightarrow> c \<notin> set s"
  using assms index_not_npos [OF assms spec_first_index_less, of c]
  by (auto simp: str_find_absent str_find_present)

lemma substr_prefix:
  assumes "length s < 2 ^ 64" and "i \<le> length s"
  shows "substr s 0 (word_of_nat i) = Inr (take i s)"
  using assms by (simp add: substr_def unat_index)

lemma take_min_length: "take (min n (length s - k)) (drop k s) = take n (drop k s)"
  by (simp add: min_def)

lemma substr_after:
  assumes "length s < 2 ^ 64" and "i < length s"
  shows "substr s (word_of_nat i + 1) n = Inr (take (unat n) (drop (i + 1) s))"
proof -
  have "unat (word_of_nat i + 1 :: 64 word) = i + 1"
    using assms by (simp add: unat_word_ariths unat_of_nat)
  then show ?thesis
    by (simp add: substr_def take_min_length) (use assms in linarith)
qed

lemma parseToken_absent:
  assumes "CHR ''('' \<notin> set t \<or> CHR '')'' \<notin> set t"
  shows "parseToken t = Inr (t, [])"
  using assms by (auto simp: parseToken_def Let_def str_find_absent)

lemma parseToken_present:
  assumes "length t < 2 ^ 64" and "CHR ''('' \<in> set t" and "CHR '')'' \<in> set t"
  shows "parseToken t =
           Inr (spec_name_before t,
                take (unat (word_of_nat (spec_first_index (CHR '')'') t)
                            - word_of_nat (spec_first_index (CHR ''('') t) - 1 :: 64 word))
                  (drop (spec_first_index (CHR ''('') t + 1) t))"
proof -
  let ?p = "spec_first_index (CHR ''('') t"
  have p: "?p < length t"
    using assms(2) by (rule spec_first_index_less)
  have "str_find t (CHR ''('') \<noteq> npos" "str_find t (CHR '')'') \<noteq> npos"
    using assms by (simp_all add: str_find_npos_iff)
  then show ?thesis
    using assms p
    by (simp add: parseToken_def Let_def str_find_present substr_prefix substr_after
        spec_name_before_def)
qed

lemma tag_length_ordered:
  assumes "length t < 2 ^ 64" and "p < q" and "q < length t"
  shows "unat (word_of_nat q - word_of_nat p - 1 :: 64 word) = q - p - 1"
proof -
  have "unat (word_of_nat q - word_of_nat p :: 64 word) = q - p"
    using assms by (simp add: unat_sub_if_size unat_of_nat)
  moreover from this have "(word_of_nat q - word_of_nat p :: 64 word) \<noteq> 0"
    using assms by auto
  ultimately show ?thesis
    by (simp add: unat_minus_one)
qed

lemma tag_length_reversed:
  assumes "length t < 2 ^ 64" and "q < p" and "p < length t"
  shows "unat (word_of_nat q - word_of_nat p - 1 :: 64 word) = 2 ^ 64 - (p + 1 - q) "
proof -
  have "unat (word_of_nat q - word_of_nat p :: 64 word) = q + 2 ^ 64 - p"
    using assms by (simp add: unat_sub_if_size unat_of_nat word_size)
  moreover from this have "(word_of_nat q - word_of_nat p :: 64 word) \<noteq> 0"
    using assms by auto
  ultimately show ?thesis
    using assms by (simp add: unat_minus_one)
qed

lemma parseToken_ordered:
  assumes "length t < 2 ^ 64" and "CHR ''('' \<in> set t" and "CHR '')'' \<in> set t"
    and "spec_first_index (CHR ''('') t < spec_first_index (CHR '')'') t"
  shows "parseToken t = Inr (spec_name_before t, spec_line_between t)"
proof -
  have "spec_first_index (CHR '')'') t < length t"
    using assms(3) by (rule spec_first_index_less)
  with assms(1,4) have "unat (word_of_nat (spec_first_index (CHR '')'') t)
                            - word_of_nat (spec_first_index (CHR ''('') t) - 1 :: 64 word)
       = spec_first_index (CHR '')'') t - spec_first_index (CHR ''('') t - 1"
    by (rule tag_length_ordered)
  then show ?thesis
    unfolding parseToken_present [OF assms(1-3)] spec_line_between_def Let_def
    by simp
qed

lemma parseToken_reversed:
  assumes "length t < 2 ^ 64" and "CHR ''('' \<in> set t" and "CHR '')'' \<in> set t"
    and "spec_first_index (CHR '')'') t < spec_first_index (CHR ''('') t"
  shows "parseToken t = Inr (spec_name_before t, drop (spec_first_index (CHR ''('') t + 1) t)"
proof -
  let ?p = "spec_first_index (CHR ''('') t" and ?q = "spec_first_index (CHR '')'') t"
  have p: "?p < length t"
    using assms(2) by (rule spec_first_index_less)
  have "unat (word_of_nat ?q - word_of_nat ?p - 1 :: 64 word) = 2 ^ 64 - (?p + 1 - ?q)"
    using assms(1,4) p by (rule tag_length_reversed)
  moreover have "length (drop (?p + 1) t) \<le> 2 ^ 64 - (?p + 1 - ?q)"
    using assms(1,4) p by simp
  ultimately show ?thesis
    unfolding parseToken_present [OF assms(1-3)]
    by (simp only: take_all)
qed

lemma parseToken_defined:
  assumes "length t < 2 ^ 64"
  shows "\<exists>nm tag. parseToken t = Inr (nm, tag)"
proof (cases "CHR ''('' \<in> set t \<and> CHR '')'' \<in> set t")
  case True
  with assms show ?thesis
    by (simp add: parseToken_present)
next
  case False
  then show ?thesis
    by (simp add: parseToken_absent)
qed

lemma parseToken_token:
  assumes "length t < 2 ^ 64"
  shows "parseToken t = Inr (token_name t, token_line t)"
  using parseToken_defined [OF assms]
  by (auto simp: token_name_def token_line_def)

subsection \<open>The three outcomes of a segment\<close>

lemma lines_at_present: "lines sw key = Some l \<Longrightarrow> lines_at sw key = (l, sw)"
  by (simp add: lines_at_def)

text \<open>
  \<^verbatim>\<open>operator[]\<close> would add a line for an unknown key; \<open>calculateSegment\<close> reaches it
  only behind the test of line 127.
\<close>

lemma calculateSegment_frame: "snd (calculateSegment m sw a b tag) = sw"
proof (cases "lines sw tag")
  case None
  then show ?thesis
    by (simp add: calculateSegment_def)
next
  case (Some l)
  then show ?thesis
    by (simp add: calculateSegment_def lines_at_present Let_def
        split: option.split sum.split)
qed

lemma calculateSegment_pair:
  "calculateSegment m sw a b tag = (fst (calculateSegment m sw a b tag), sw)"
  using calculateSegment_frame [of m sw a b tag]
  by (metis prod.collapse)

lemma calculateSegment_no_line:
  "lines sw tag = None \<Longrightarrow> calculateSegment m sw a b tag = (Inr (msg_no_line @ tag @ '')''), sw)"
  by (simp add: calculateSegment_def)

lemma calculateSegment_no_station:
  assumes "lines sw tag = Some l" and "findStation l a = None \<or> findStation l b = None"
  shows "calculateSegment m sw a b tag = (Inr (msg_no_station @ a @ '' or '' @ b @ '')''), sw)"
  using assms
  by (auto simp: calculateSegment_def lines_at_present Let_def split: option.split)

lemma calculateSegment_found:
  assumes "lines sw tag = Some l" and "findStation l a = Some st1" and "findStation l b = Some st2"
    and "to_int (std_round (d_mul (d_div (d_abs (d_sub (distFromStart st1) (distFromStart st2)))
                                         (avgSpeed l)) (rnd 60.0))) = Inr k"
  shows "calculateSegment m sw a b tag =
           (Inr (fixed1 (d_abs (d_sub (distFromStart st1) (distFromStart st2))) @ ''km(''
                 @ string_of_int k @ str_minutes @ a @ ''-'' @ b
                 @ (if d_less (Fin 0) (calcStraightDist m (lat st1) (lon st1) (lat st2) (lon st2))
                    then str_straight
                         @ fixed1 (calcStraightDist m (lat st1) (lon st1) (lat st2) (lon st2))
                         @ ''km''
                    else [])
                 @ '')''), sw)"
  using assms
  by (simp add: calculateSegment_def lines_at_present Let_def)

subsection \<open>The loop of main in closed form\<close>

lemma route_loop_step:
  assumes "i + 1 < length argv"
    and "length (argv ! i) < 2 ^ 64" and "length (argv ! (i + 1)) < 2 ^ 64"
  shows "route_loop m sw argv i result =
           (case segment_result m sw (argv ! i) (argv ! (i + 1)) of
              Inl e \<Rightarrow> Inl e
            | Inr seg \<Rightarrow>
                route_loop m sw argv (i + 1) ((if 1 < i then result @ '', '' else result) @ seg))"
proof -
  let ?c = "calculateSegment m sw (token_name (argv ! i)) (token_name (argv ! (i + 1)))
              (token_line (argv ! i))"
  have c: "?c = (fst ?c, sw)"
    by (rule calculateSegment_pair)
  show ?thesis
    apply (subst route_loop.simps)
    apply (simp only: assms(1) if_True parseToken_token [OF assms(2)]
        parseToken_token [OF assms(3)] sum.case prod.case segment_result_def)
    apply (subst c)
    apply (cases "fst ?c")
     apply simp_all
    done
qed

lemma route_loop_exit: "\<not> i + 1 < length argv \<Longrightarrow> route_loop m sw argv i result = Inr result"
  by (subst route_loop.simps) simp

lemma route_loop_tail:
  assumes "\<forall>k. 0 < k \<and> k < length argv \<longrightarrow> length (argv ! k) < 2 ^ 64" and "1 < i"
  shows "route_loop m sw argv i result =
           (case collect (map (\<lambda>j. segment_result m sw (argv ! j) (argv ! (j + 1)))
                            [i..<length argv - 1]) of
              Inl e \<Rightarrow> Inl e
            | Inr segs \<Rightarrow> Inr (result @ concat (map (\<lambda>s. '', '' @ s) segs)))"
  using assms(2)
proof (induction "length argv - i" arbitrary: i result)
  case 0
  then show ?case
    by (simp add: route_loop_exit)
next
  case (Suc n)
  show ?case
  proof (cases "i + 1 < length argv")
    case False
    then show ?thesis
      by (simp add: route_loop_exit)
  next
    case True
    then have upt: "[i..<length argv - 1] = i # [i + 1..<length argv - 1]"
      by (simp add: upt_conv_Cons)
    have len: "length (argv ! i) < 2 ^ 64" "length (argv ! (i + 1)) < 2 ^ 64"
      using assms(1) True Suc.prems by auto
    have IH: "\<And>r. route_loop m sw argv (Suc i) r =
           (case collect (map (\<lambda>j. segment_result m sw (argv ! j) (argv ! (j + 1)))
                            [Suc i..<length argv - 1]) of
              Inl e \<Rightarrow> Inl e
            | Inr segs \<Rightarrow> Inr (r @ concat (map (\<lambda>s. '', '' @ s) segs)))"
      using Suc.hyps(1) [of "i + 1"] Suc.hyps(2) Suc.prems by simp
    show ?thesis
      unfolding route_loop_step [OF True len] upt
      using Suc.prems
      by (simp add: IH split: sum.split)
  qed
qed

lemma join_segments_Cons:
  "join_segments (s # segs) = s @ concat (map (\<lambda>s. '', '' @ s) segs)"
  by (induction segs arbitrary: s) simp_all

lemma route_loop_report:
  assumes "\<forall>k. 0 < k \<and> k < length argv \<longrightarrow> length (argv ! k) < 2 ^ 64"
  shows "route_loop m sw argv 1 [] =
           (case collect (map (\<lambda>j. segment_result m sw (argv ! j) (argv ! (j + 1)))
                            [1..<length argv - 1]) of
              Inl e \<Rightarrow> Inl e
            | Inr segs \<Rightarrow> Inr (join_segments segs))"
proof (cases "2 < length argv")
  case False
  then show ?thesis
    by (simp add: route_loop_exit)
next
  case True
  then have upt: "[1..<length argv - 1] = 1 # [1 + 1..<length argv - 1]"
    by (simp add: upt_conv_Cons)
  have two: "1 < 1 + (1::nat)"
    by simp
  have sep: "(@) '', '' = (\<lambda>s. CHR '','' # CHR '' '' # s)"
    by (rule ext) simp
  have len: "length (argv ! 1) < 2 ^ 64" "length (argv ! (1 + 1)) < 2 ^ 64"
    using assms True by auto
  have step: "1 + 1 < length argv"
    using True by simp
  show ?thesis
    unfolding route_loop_step [OF step len] upt route_loop_tail [OF assms two]
    by (simp add: join_segments_Cons sep split: sum.split)
qed

lemma segments_shift:
  "map (\<lambda>j. F ((p # ts) ! j) ((p # ts) ! (j + 1))) [1..<length (p # ts) - 1]
     = map (\<lambda>i. F (ts ! i) (ts ! (i + 1))) [0..<length ts - 1]"
proof -
  have "[1..<length (p # ts) - 1] = map Suc [0..<length ts - 1]"
    by (cases ts) (simp_all add: map_Suc_upt)
  then show ?thesis
    by (simp add: comp_def)
qed

lemma route_loop_tokens:
  assumes "\<forall>t \<in> set tokens. length t < 2 ^ 64"
  shows "route_loop m sw (prog # tokens) 1 [] =
           (case collect (map (\<lambda>i. segment_result m sw (tokens ! i) (tokens ! (i + 1)))
                            [0..<length tokens - 1]) of
              Inl e \<Rightarrow> Inl e
            | Inr segs \<Rightarrow> Inr (join_segments segs))"
proof -
  have "\<forall>k. 0 < k \<and> k < length (prog # tokens) \<longrightarrow> length ((prog # tokens) ! k) < 2 ^ 64"
    using assms by (auto simp: nth_Cons split: nat.split)
  then show ?thesis
    by (simp only: route_loop_report segments_shift)
qed

lemma collect_length: "collect xs = Inr vs \<Longrightarrow> length vs = length xs"
  by (induction xs arbitrary: vs) (auto split: sum.splits)

lemma segments_Cons:
  "map (\<lambda>i. F ((t1 # t2 # ts) ! i) ((t1 # t2 # ts) ! (i + 1))) [0..<length (t1 # t2 # ts) - 1]
     = F t1 t2 # map (\<lambda>i. F ((t2 # ts) ! i) ((t2 # ts) ! (i + 1))) [0..<length (t2 # ts) - 1]"
proof -
  have "[0..<Suc n] = 0 # [Suc 0..<Suc n]" for n
    by (rule upt_conv_Cons) simp
  then have "[0..<Suc n] = 0 # map Suc [0..<n]" for n
    by (simp only: map_Suc_upt)
  then have "[0..<length (t1 # t2 # ts) - 1] = 0 # map Suc [0..<length (t2 # ts) - 1]"
    by simp
  then show ?thesis
    by (simp add: comp_def)
qed

lemma join_segments_first:
  "join_segments (s # segs) = (if segs = [] then s else s @ '', '' @ join_segments segs)"
  by (cases segs) simp_all

lemma route_loop_first:
  assumes "length t1 < 2 ^ 64" and "length t2 < 2 ^ 64" and "\<forall>t \<in> set ts. length t < 2 ^ 64"
    and "segment_result m sw t1 t2 = Inr msg"
  shows "route_loop m sw (prog # t1 # t2 # ts) 1 [] =
           (if ts = [] then Inr msg
            else case route_loop m sw (prog # t2 # ts) 1 [] of
                   Inl e \<Rightarrow> Inl e
                 | Inr r \<Rightarrow> Inr (msg @ '', '' @ r))"
proof -
  let ?rest = "map (\<lambda>i. segment_result m sw ((t2 # ts) ! i) ((t2 # ts) ! (i + 1)))
                 [0..<length (t2 # ts) - 1]"
  have a: "\<forall>t \<in> set (t1 # t2 # ts). length t < 2 ^ 64" "\<forall>t \<in> set (t2 # ts). length t < 2 ^ 64"
    using assms(1-3) by simp_all
  have e: "ts = [] \<longleftrightarrow> segs = []" if "collect ?rest = Inr segs" for segs
    using collect_length [OF that] by auto
  show ?thesis
    unfolding route_loop_tokens [OF a(1)] route_loop_tokens [OF a(2)] segments_Cons
    using e by (auto simp: assms(4) join_segments_first split: sum.split)
qed

subsection \<open>Rounding and decimal output\<close>

lemma digit_char_digit: "d < 10 \<Longrightarrow> digit_char d \<in> set ''0123456789''"
  unfolding digit_char_def by (rule nth_mem) simp

lemma string_of_nat_digits:
  "string_of_nat n \<noteq> [] \<and> set (string_of_nat n) \<subseteq> set ''0123456789''"
proof (induction n rule: string_of_nat.induct)
  case (1 n)
  show ?case
  proof (cases "n < 10")
    case True
    then show ?thesis
      using digit_char_digit [of n] by (subst (1 2) string_of_nat.simps) simp
  next
    case False
    then show ?thesis
      using "1.IH" digit_char_digit [of "n mod 10"]
      by (subst (1 2) string_of_nat.simps) simp
  qed
qed

lemma digit_value_digit_char: "d < 10 \<Longrightarrow> digit_value (digit_char d) = d"
proof -
  assume "d < 10"
  then have "d \<in> {0, 1, 2, 3, 4, 5, 6, 7, 8, 9}"
    by auto
  then show ?thesis
    by (auto simp: digit_value_def digit_char_def)
qed

lemma digits_value_snoc: "digits_value (s @ [c]) = 10 * digits_value s + digit_value c"
  by (simp add: digits_value_def)

lemma digits_value_string_of_nat: "digits_value (string_of_nat n) = n"
proof (induction n rule: string_of_nat.induct)
  case (1 n)
  show ?case
  proof (cases "n < 10")
    case True
    then show ?thesis
      by (subst string_of_nat.simps) (simp add: digits_value_def digit_value_digit_char)
  next
    case False
    then have "digits_value (string_of_nat n)
        = 10 * digits_value (string_of_nat (n div 10)) + digit_value (digit_char (n mod 10))"
      by (subst string_of_nat.simps) (simp add: digits_value_snoc)
    with False show ?thesis
      by (simp add: "1.IH" digit_value_digit_char)
  qed
qed

lemma round_half_even_nonneg: "0 \<le> y \<Longrightarrow> 0 \<le> round_half_even y"
  by (auto simp: round_half_even_def Let_def)

lemma fixed1_value:
  "\<exists>whole d. fixed1 (Fin x) = (if x < 0 then ''-'' else []) @ whole @ ''.'' @ [d]
     \<and> whole \<noteq> [] \<and> set whole \<subseteq> set ''0123456789'' \<and> d \<in> set ''0123456789''
     \<and> \<bar>real (digits_value whole) + real (digit_value d) / 10 - \<bar>x\<bar>\<bar> \<le> 1 / 20"
proof -
  let ?r = "round_half_even (\<bar>x\<bar> * 10)"
  let ?m = "nat ?r"
  have "0 \<le> ?r"
    by (rule round_half_even_nonneg) simp
  then have m: "real ?m = of_int ?r"
    by simp
  have "\<bar>of_int ?r - \<bar>x\<bar> * 10\<bar> \<le> 1 / 2"
    by (rule round_half_even_nearest)
  then have near: "\<bar>real ?m / 10 - \<bar>x\<bar>\<bar> \<le> 1 / 20"
    unfolding m by linarith
  have "real ?m = 10 * real (?m div 10) + real (?m mod 10)"
    by (metis mult_div_mod_eq of_nat_add of_nat_mult of_nat_numeral)
  then have split: "real (?m div 10) + real (?m mod 10) / 10 = real ?m / 10"
    by simp
  have "fixed1 (Fin x) = (if x < 0 then ''-'' else []) @ string_of_nat (?m div 10) @ ''.''
          @ [digit_char (?m mod 10)]"
    by (simp add: Let_def)
  moreover have "digit_char (?m mod 10) \<in> set ''0123456789''"
    by (rule digit_char_digit) simp
  moreover have "\<bar>real (digits_value (string_of_nat (?m div 10)))
      + real (digit_value (digit_char (?m mod 10))) / 10 - \<bar>x\<bar>\<bar> \<le> 1 / 20"
    using near by (simp only: digits_value_string_of_nat digit_value_digit_char split
        mod_less_divisor zero_less_numeral)
  ultimately show ?thesis
    using string_of_nat_digits [of "?m div 10"] by blast
qed

lemma std_round_nearest: "\<exists>y. std_round (Fin x) = Fin y \<and> \<bar>y - x\<bar> \<le> 1 / 2"
proof (cases "0 \<le> x")
  case True
  have "of_int \<lfloor>x + 1 / 2\<rfloor> \<le> x + 1 / 2" "x + 1 / 2 < of_int \<lfloor>x + 1 / 2\<rfloor> + 1"
    by linarith+
  then have "\<bar>of_int \<lfloor>x + 1 / 2\<rfloor> - x\<bar> \<le> 1 / 2"
    by linarith
  with True show ?thesis
    by simp
next
  case False
  have "x - 1 / 2 \<le> of_int \<lceil>x - 1 / 2\<rceil>" "of_int \<lceil>x - 1 / 2\<rceil> < x - 1 / 2 + 1"
    by linarith+
  then have "\<bar>of_int \<lceil>x - 1 / 2\<rceil> - x\<bar> \<le> 1 / 2"
    by linarith
  with False show ?thesis
    by simp
qed

lemma to_int_finite: "to_int d = Inr k \<Longrightarrow> \<exists>x. d = Fin x"
  by (cases d) simp_all

lemma std_round_finite: "std_round d = Fin y \<Longrightarrow> \<exists>x. d = Fin x"
  by (cases d) simp_all

lemma to_int_std_round:
  assumes "to_int (std_round d) = Inr k"
  shows "\<exists>x. d = Fin x \<and> std_round d = Fin (of_int k) \<and> \<bar>of_int k - x\<bar> \<le> 1 / 2"
proof -
  obtain y where y: "std_round d = Fin y"
    using to_int_finite [OF assms] by blast
  then obtain x where x: "d = Fin x"
    using std_round_finite by blast
  define j where "j = (if 0 \<le> x then \<lfloor>x + 1 / 2\<rfloor> else \<lceil>x - 1 / 2\<rceil>)"
  have j: "std_round d = Fin (of_int j)"
    by (simp add: x j_def)
  have "to_int (Fin (of_int j)) = Inr k"
    using assms by (simp only: j)
  then have "k = j"
    by (auto simp: Let_def split: if_splits)
  moreover have "\<bar>of_int j - x\<bar> \<le> 1 / 2"
    using std_round_nearest [of x] j by (simp add: x)
  ultimately show ?thesis
    using x j by simp
qed

lemma fixed1_8_2:
  assumes "815 / 100 < v" and "v < 825 / 100"
  shows "fixed1 (Fin v) = ''8.2''"
proof -
  have "round_half_even (\<bar>v\<bar> * 10) = 82"
    using assms by (intro round_half_even_unique) simp_all
  moreover have "\<not> v < 0"
    using assms by simp
  ultimately show ?thesis
    by (simp add: string_of_nat.simps digit_char_def)
qed

subsection \<open>The straight-line distance from Gyeyang to Magongnaru\<close>

text \<open>
  Bounds for the sine (by its Maclaurin polynomial), the cosine (by the double-angle
  formula) and the arc tangent place the distance between 8.15 km and 8.25 km, so that it
  is printed as \<open>8.2\<close>.
\<close>

lemma sin_coeffs: "sin_coeff (Suc 0) = 1" "sin_coeff 2 = 0" "sin_coeff 3 = - 1 / 6" "sin_coeff 4 = 0"
  by (simp_all add: sin_coeff_def fact_numeral)

lemma fact5: "fact 5 = (120::real)"
  by (simp add: fact_numeral)

lemma sin_sum5: "(\<Sum>m<5. sin_coeff m * z ^ m) = z - z ^ 3 / 6"
proof -
  have "{..<5::nat} = {0, 1, 2, 3, 4}"
    by auto
  then show ?thesis
    by (simp add: sin_coeffs)
qed

lemma sin_quintic: "\<bar>sin z - (z - z ^ 3 / 6)\<bar> \<le> \<bar>z\<bar> ^ 5 / 120" for z :: real
proof -
  have "\<bar>sin z - (\<Sum>m<5. sin_coeff m * z ^ m)\<bar> \<le> inverse (fact 5) * \<bar>z\<bar> ^ 5"
    by (rule Maclaurin_sin_bound)
  then show ?thesis
    by (simp only: sin_sum5 fact5 divide_inverse mult.commute)
qed

lemma arctan_le_self:
  assumes "0 \<le> x"
  shows "arctan x \<le> x"
proof -
  have d: "\<exists>d. ((\<lambda>v. v - arctan v) has_real_derivative d) (at u) \<and> 0 \<le> d" for u :: real
  proof -
    have "((\<lambda>v. v - arctan v) has_real_derivative 1 - inverse (1 + u\<^sup>2)) (at u)"
      by (auto intro!: derivative_eq_intros)
    moreover have "inverse (1 + u\<^sup>2) \<le> 1"
      by (simp add: inverse_le_1_iff)
    ultimately show ?thesis
      by (intro exI [of _ "1 - inverse (1 + u\<^sup>2)"]) simp
  qed
  have "0 - arctan 0 \<le> x - arctan x"
    by (rule DERIV_nonneg_imp_nondecreasing [where f = "\<lambda>v. v - arctan v", OF assms]) (rule d)
  then show ?thesis
    by simp
qed

lemma cos_near_arex:
  fixes x :: real
  assumes "6556 / 10000 \<le> x" and "x \<le> 6558 / 10000"
  shows "7925 / 10000 \<le> cos x" and "cos x \<le> 7928 / 10000"
proof -
  have pi: "6558 / 10000 \<le> pi"
    using pi_ge_two by linarith
  have half: "cos (2 * z) = 1 - 2 * (sin z * sin z)" for z :: real
    by (simp add: cos_double_sin power2_eq_square)
  have hi: "\<bar>sin (3279 / 10000) - (3279 / 10000 - (3279 / 10000) ^ 3 / 6)\<bar>
      \<le> \<bar>3279 / 10000 :: real\<bar> ^ 5 / 120"
    by (rule sin_quintic)
  have lo: "\<bar>sin (3278 / 10000) - (3278 / 10000 - (3278 / 10000) ^ 3 / 6)\<bar>
      \<le> \<bar>3278 / 10000 :: real\<bar> ^ 5 / 120"
    by (rule sin_quintic)
  have n1: "(3279 / 10000 :: real) - (3279 / 10000) ^ 3 / 6 + (3279 / 10000) ^ 5 / 120
      \<le> 32206 / 100000"
    by (simp add: power_divide)
  have n2: "0 \<le> (3279 / 10000 :: real) - (3279 / 10000) ^ 3 / 6 - (3279 / 10000) ^ 5 / 120"
    by (simp add: power_divide)
  have n3: "32189 / 100000
      \<le> (3278 / 10000 :: real) - (3278 / 10000) ^ 3 / 6 - (3278 / 10000) ^ 5 / 120"
    by (simp add: power_divide)
  have a1: "\<bar>3279 / 10000 :: real\<bar> = 3279 / 10000" "\<bar>3278 / 10000 :: real\<bar> = 3278 / 10000"
    by simp_all
  have s1: "0 \<le> sin (3279 / 10000 :: real)" "sin (3279 / 10000 :: real) \<le> 32206 / 100000"
    using hi n1 n2 unfolding a1 by linarith+
  have s2: "32189 / 100000 \<le> sin (3278 / 10000 :: real)"
    using lo n3 unfolding a1 by linarith
  have "sin (3279 / 10000 :: real) * sin (3279 / 10000) \<le> 32206 / 100000 * (32206 / 100000)"
    using s1 by (intro mult_mono) simp_all
  then have c1: "7925 / 10000 \<le> cos (2 * (3279 / 10000 :: real))"
    unfolding half by simp
  have "32189 / 100000 * (32189 / 100000) \<le> sin (3278 / 10000 :: real) * sin (3278 / 10000)"
    using s2 by (intro mult_mono) simp_all
  then have c2: "cos (2 * (3278 / 10000 :: real)) \<le> 7928 / 10000"
    unfolding half by simp
  have "cos (6558 / 10000) \<le> cos x"
    using assms pi by (intro cos_monotone_0_pi_le) simp_all
  with c1 show "7925 / 10000 \<le> cos x"
    by simp
  have "cos x \<le> cos (6556 / 10000)"
    using assms pi by (intro cos_monotone_0_pi_le) simp_all
  with c2 show "cos x \<le> 7928 / 10000"
    by simp
qed

lemma sin_near_arex:
  fixes y :: real
  assumes "8115 / 10 ^ 7 \<le> y" and "y \<le> 8116 / 10 ^ 7"
  shows "81149 / 10 ^ 8 \<le> sin y" and "sin y \<le> 8116 / 10 ^ 7"
proof -
  have pi: "1 \<le> pi / 2"
    using pi_ge_two by simp
  have "\<bar>sin (8115 / 10 ^ 7) - (8115 / 10 ^ 7 - (8115 / 10 ^ 7) ^ 3 / 6)\<bar>
      \<le> \<bar>8115 / 10 ^ 7 :: real\<bar> ^ 5 / 120"
    by (rule sin_quintic)
  moreover have "\<bar>8115 / 10 ^ 7 :: real\<bar> = 8115 / 10 ^ 7"
    by simp
  moreover have "81149 / 10 ^ 8
      \<le> (8115 / 10 ^ 7 :: real) - (8115 / 10 ^ 7) ^ 3 / 6 - (8115 / 10 ^ 7) ^ 5 / 120"
    by (simp add: power_divide)
  ultimately have "81149 / 10 ^ 8 \<le> sin (8115 / 10 ^ 7 :: real)"
    by linarith
  moreover have "sin (8115 / 10 ^ 7) \<le> sin y"
    using assms pi by (intro sin_monotone_2pi_le) simp_all
  ultimately show "81149 / 10 ^ 8 \<le> sin y"
    by linarith
  have "sin y \<le> y"
    using assms by (intro sin_x_le_x) simp
  with assms show "sin y \<le> 8116 / 10 ^ 7"
    by linarith
qed

lemma arctan_ge:
  assumes "0 \<le> u"
  shows "u / sqrt (1 + u\<^sup>2) \<le> arctan u"
proof -
  have "u / sqrt (1 + u\<^sup>2) = sin (arctan u)"
    by (simp only: sin_arctan)
  also have "\<dots> \<le> arctan u"
    using assms by (intro sin_x_le_x) simp
  finally show ?thesis .
qed

subsection \<open>Bounds that survive the rounding\<close>

lemma d_betweenE:
  assumes "d_between d lo hi"
  obtains y where "d = Fin y" and "lo \<le> y" and "y \<le> hi"
  using assms by (cases d) (simp_all add: d_between_def)

lemma d_betweenI: "lo \<le> y \<Longrightarrow> y \<le> hi \<Longrightarrow> d_between (Fin y) lo hi"
  by (simp add: d_between_def)

lemma d_between_weaken:
  assumes "d_between d lo hi" and "lo' \<le> lo" and "hi \<le> hi'"
  shows "d_between d lo' hi'"
proof -
  obtain y where "d = Fin y" "lo \<le> y" "y \<le> hi"
    using assms(1) by (rule d_betweenE)
  then show ?thesis
    using assms(2,3) by (simp add: d_between_def)
qed

lemma rnd_within:
  assumes "lo \<le> x" and "x \<le> hi" and "- 4096 \<le> lo" and "hi \<le> 4096"
    and "lo' \<le> lo - 1 / 2 ^ 40" and "hi + 1 / 2 ^ 40 \<le> hi'"
  shows "d_between (rnd x) lo' hi'"
  using rnd_between [OF assms(1-4)] assms(5,6) by (rule d_between_weaken)

lemma d_between_mul:
  assumes "d_between a la ha" and "d_between b lb hb" and "0 \<le> la" and "0 \<le> lb"
    and "lo \<le> la * lb - 1 / 2 ^ 40" and "ha * hb + 1 / 2 ^ 40 \<le> hi" and "ha * hb \<le> 4096"
  shows "d_between (d_mul a b) lo hi"
proof -
  obtain x where x: "a = Fin x" "la \<le> x" "x \<le> ha"
    using assms(1) by (rule d_betweenE)
  obtain y where y: "b = Fin y" "lb \<le> y" "y \<le> hb"
    using assms(2) by (rule d_betweenE)
  have pos: "0 \<le> x" "0 \<le> y"
    using x y assms(3,4) by linarith+
  have l: "la * lb \<le> x * y"
    by (rule mult_mono [OF x(2) y(2) pos(1) assms(4)])
  have h: "x * y \<le> ha * hb"
    using order_trans [OF pos(1) x(3)] by (intro mult_mono [OF x(3) y(3) _ pos(2)])
  have "0 \<le> la * lb"
    using assms(3,4) by simp
  then have "- 4096 \<le> la * lb"
    by linarith
  then have "d_between (rnd (x * y)) lo hi"
    using l h assms(5-7) by (intro rnd_within [of "la * lb" _ "ha * hb"])
  then show ?thesis
    by (simp add: x(1) y(1))
qed

lemma d_between_square:
  assumes "d_between a (- h) h" and "lo \<le> - (1 / 2 ^ 40)" and "h * h + 1 / 2 ^ 40 \<le> hi"
    and "h * h \<le> 4096"
  shows "d_between (d_mul a a) lo hi"
proof -
  obtain x where x: "a = Fin x" "- h \<le> x" "x \<le> h"
    using assms(1) by (rule d_betweenE)
  have "\<bar>x\<bar> \<le> h"
    using x by linarith
  then have "\<bar>x\<bar> * \<bar>x\<bar> \<le> h * h"
    by (intro mult_mono) simp_all
  then have h: "x * x \<le> h * h"
    by (simp add: abs_mult_self_eq)
  have l: "0 \<le> x * x"
    by simp
  have "d_between (rnd (x * x)) lo hi"
    using l h assms(2-4) by (intro rnd_within [of 0 _ "h * h"]) simp_all
  then show ?thesis
    by (simp add: x(1))
qed

lemma d_between_add:
  assumes "d_between a la ha" and "d_between b lb hb"
    and "lo \<le> la + lb - 1 / 2 ^ 40" and "ha + hb + 1 / 2 ^ 40 \<le> hi"
    and "- 4096 \<le> la + lb" and "ha + hb \<le> 4096"
  shows "d_between (d_add a b) lo hi"
proof -
  obtain x where x: "a = Fin x" "la \<le> x" "x \<le> ha"
    using assms(1) by (rule d_betweenE)
  obtain y where y: "b = Fin y" "lb \<le> y" "y \<le> hb"
    using assms(2) by (rule d_betweenE)
  have "la + lb \<le> x + y" "x + y \<le> ha + hb"
    using x y by linarith+
  then have "d_between (rnd (x + y)) lo hi"
    using assms(3-6) by (intro rnd_within [of "la + lb" _ "ha + hb"])
  then show ?thesis
    by (simp add: x(1) y(1))
qed

lemma d_between_sub:
  assumes "d_between a la ha" and "d_between b lb hb"
    and "lo \<le> la - hb - 1 / 2 ^ 40" and "ha - lb + 1 / 2 ^ 40 \<le> hi"
    and "- 4096 \<le> la - hb" and "ha - lb \<le> 4096"
  shows "d_between (d_sub a b) lo hi"
proof -
  obtain x where x: "a = Fin x" "la \<le> x" "x \<le> ha"
    using assms(1) by (rule d_betweenE)
  obtain y where y: "b = Fin y" "lb \<le> y" "y \<le> hb"
    using assms(2) by (rule d_betweenE)
  have "la - hb \<le> x - y" "x - y \<le> ha - lb"
    using x y by linarith+
  then have "d_between (rnd (x - y)) lo hi"
    using assms(3-6) by (intro rnd_within [of "la - hb" _ "ha - lb"])
  then show ?thesis
    by (simp add: x(1) y(1) d_sub_def)
qed

lemma d_between_sqrt:
  assumes "d_between a la ha" and "0 \<le> l" and "l\<^sup>2 \<le> la" and "0 \<le> h" and "ha \<le> h\<^sup>2"
    and "lo \<le> l - 1 / 2 ^ 40" and "h + 1 / 2 ^ 40 \<le> hi" and "h \<le> 4096"
  shows "d_between (d_sqrt a) lo hi"
proof -
  obtain x where x: "a = Fin x" "la \<le> x" "x \<le> ha"
    using assms(1) by (rule d_betweenE)
  have "0 \<le> l\<^sup>2"
    by simp
  then have pos: "0 \<le> x"
    using assms(3) x(2) by linarith
  have "l\<^sup>2 \<le> x"
    using assms(3) x(2) by linarith
  then have l: "l \<le> sqrt x"
    by (rule real_le_rsqrt)
  have "x \<le> h\<^sup>2"
    using assms(5) x(3) by linarith
  then have h: "sqrt x \<le> h"
    using assms(4) by (intro real_le_lsqrt)
  have "d_between (rnd (sqrt x)) lo hi"
    using l h assms(2,6-8) by (intro rnd_within [of l _ h]) simp_all
  then show ?thesis
    using pos by (simp add: x(1))
qed

lemma d_between_sin:
  assumes "libm_accurate m" and "d_between a la ha"
    and "\<forall>r. la \<le> r \<and> r \<le> ha \<longrightarrow> l \<le> sin r \<and> sin r \<le> h"
    and "lo \<le> l - 1 / 2 ^ 40" and "h + 1 / 2 ^ 40 \<le> hi"
  shows "d_between (std_sin m a) lo hi"
proof -
  obtain x where x: "a = Fin x" "la \<le> x" "x \<le> ha"
    using assms(2) by (rule d_betweenE)
  have "near (l_sin m x) (sin x)"
    using assms(1) by (simp add: libm_accurate_def)
  then obtain z where z: "l_sin m x = Fin z" "\<bar>z - sin x\<bar> \<le> 1 / 2 ^ 40"
    by (cases "l_sin m x") (simp_all add: near_def)
  have "l \<le> sin x" "sin x \<le> h"
    using assms(3) x(2,3) by simp_all
  then have "lo \<le> z" "z \<le> hi"
    using z(2) assms(4,5) by linarith+
  then show ?thesis
    by (simp add: x(1) z(1) d_between_def)
qed

lemma d_between_cos:
  assumes "libm_accurate m" and "d_between a la ha"
    and "\<forall>r. la \<le> r \<and> r \<le> ha \<longrightarrow> l \<le> cos r \<and> cos r \<le> h"
    and "lo \<le> l - 1 / 2 ^ 40" and "h + 1 / 2 ^ 40 \<le> hi"
  shows "d_between (std_cos m a) lo hi"
proof -
  obtain x where x: "a = Fin x" "la \<le> x" "x \<le> ha"
    using assms(2) by (rule d_betweenE)
  have "near (l_cos m x) (cos x)"
    using assms(1) by (simp add: libm_accurate_def)
  then obtain z where z: "l_cos m x = Fin z" "\<bar>z - cos x\<bar> \<le> 1 / 2 ^ 40"
    by (cases "l_cos m x") (simp_all add: near_def)
  have "l \<le> cos x" "cos x \<le> h"
    using assms(3) x(2,3) by simp_all
  then have "lo \<le> z" "z \<le> hi"
    using z(2) assms(4,5) by linarith+
  then show ?thesis
    by (simp add: x(1) z(1) d_between_def)
qed

lemma d_between_atan2:
  assumes "libm_accurate m" and "d_between b lb hb" and "d_between a la ha"
    and "0 \<le> lb" and "0 < la"
    and "lo \<le> lb / ha / (1 + (lb / ha)\<^sup>2) - 1 / 2 ^ 40" and "hb / la + 1 / 2 ^ 40 \<le> hi"
  shows "d_between (std_atan2 m b a) lo hi"
proof -
  obtain y where y: "b = Fin y" "lb \<le> y" "y \<le> hb"
    using assms(2) by (rule d_betweenE)
  obtain x where x: "a = Fin x" "la \<le> x" "x \<le> ha"
    using assms(3) by (rule d_betweenE)
  have pos: "0 < x" "0 \<le> y" "0 < ha"
    using x y assms(4,5) by linarith+
  have "near (l_atan2 m (Fin y) (Fin x)) (atan2 y x)"
    using assms(1) by (simp add: libm_accurate_def)
  then obtain z where z: "l_atan2 m (Fin y) (Fin x) = Fin z" "\<bar>z - arctan (y / x)\<bar> \<le> 1 / 2 ^ 40"
    using pos(1) by (cases "l_atan2 m (Fin y) (Fin x)") (simp_all add: near_def atan2_def)
  have "y / x \<le> hb / la"
    using y(3) x(2) pos assms(5) by (intro frac_le) simp_all
  moreover have "0 \<le> y / x"
    using pos by simp
  ultimately have up: "arctan (y / x) \<le> hb / la"
    using arctan_le_self [of "y / x"] by linarith
  define u where "u = lb / ha"
  have u: "0 \<le> u" "u \<le> y / x"
    unfolding u_def using assms(4) pos y(2) x(3) by (simp, intro frac_le, simp_all)
  have "1 + u\<^sup>2 \<le> (1 + u\<^sup>2)\<^sup>2"
    by (rule self_le_power) simp_all
  then have "sqrt (1 + u\<^sup>2) \<le> 1 + u\<^sup>2"
    by (intro real_le_lsqrt) simp_all
  then have "u / (1 + u\<^sup>2) \<le> u / sqrt (1 + u\<^sup>2)"
    using u(1) by (intro divide_left_mono) (simp_all add: add_pos_nonneg)
  also have "\<dots> \<le> arctan u"
    using u(1) by (rule arctan_ge)
  also have "\<dots> \<le> arctan (y / x)"
    using u(2) by (simp only: arctan_le_iff)
  finally have "lb / ha / (1 + (lb / ha)\<^sup>2) \<le> arctan (y / x)"
    by (simp only: u_def)
  with up have "lo \<le> z" "z \<le> hi"
    using z(2) assms(6,7) by linarith+
  then show ?thesis
    by (simp add: x(1) y(1) z(1) std_atan2_def d_between_def)
qed

subsection \<open>The straight-line distance from Gyeyang to Magongnaru\<close>

text \<open>
  The arguments of the sines and cosines are computed by rounded operations on the
  literals of \<open>loadData\<close>; their values are evaluated. The library may return any value
  within \<open>2\<^sup>-\<^sup>4\<^sup>0\<close> of the sine, cosine and angle; with the rounding of every later
  operation the distance still lies between 8.15 km and 8.25 km, and is printed as
  \<open>8.2\<close>.
\<close>

lemma R_value: "R = Fin 6371"
  by (simp add: R_def fp_eval)

lemma arex_half_dLat:
  "d_between (d_div (toRad (d_sub (rnd 37.567) (rnd 37.571))) (Fin 2)) (- (35 / 10 ^ 6)) (35 / 10 ^ 6)"
  by (simp add: d_between_def toRad_def PI_def fp_eval)

lemma arex_half_dLon:
  "d_between (d_div (toRad (d_sub (rnd 126.829) (rnd 126.736))) (Fin 2)) (8115 / 10 ^ 7) (8116 / 10 ^ 7)"
  by (simp add: d_between_def toRad_def PI_def fp_eval)

lemma arex_lat1: "d_between (toRad (rnd 37.571)) (6556 / 10000) (6558 / 10000)"
  by (simp add: d_between_def toRad_def PI_def fp_eval)

lemma arex_lat2: "d_between (toRad (rnd 37.567)) (6556 / 10000) (6558 / 10000)"
  by (simp add: d_between_def toRad_def PI_def fp_eval)

lemma sin_small: "\<forall>r::real. - h \<le> r \<and> r \<le> h \<longrightarrow> - h \<le> sin r \<and> sin r \<le> h"
proof (intro allI impI)
  fix r :: real
  assume "- h \<le> r \<and> r \<le> h"
  moreover have "\<bar>sin r\<bar> \<le> \<bar>r\<bar>"
    by (rule abs_sin_x_le_abs_x)
  ultimately show "- h \<le> sin r \<and> sin r \<le> h"
    by linarith
qed

lemma cos_arex:
  "\<forall>r::real. 6556 / 10000 \<le> r \<and> r \<le> 6558 / 10000 \<longrightarrow> 7925 / 10000 \<le> cos r \<and> cos r \<le> 7928 / 10000"
  using cos_near_arex by blast

lemma sin_arex:
  "\<forall>r::real. 8115 / 10 ^ 7 \<le> r \<and> r \<le> 8116 / 10 ^ 7 \<longrightarrow> 81149 / 10 ^ 8 \<le> sin r \<and> sin r \<le> 8116 / 10 ^ 7"
  using sin_near_arex by blast

lemma haversine_arex:
  assumes "libm_accurate m"
  shows "d_between
           (d_add (d_mul (std_sin m (d_div (toRad (d_sub (rnd 37.567) (rnd 37.571))) (Fin 2)))
                         (std_sin m (d_div (toRad (d_sub (rnd 37.567) (rnd 37.571))) (Fin 2))))
                  (d_mul (d_mul (d_mul (std_cos m (toRad (rnd 37.571))) (std_cos m (toRad (rnd 37.567))))
                                (std_sin m (d_div (toRad (d_sub (rnd 126.829) (rnd 126.736))) (Fin 2))))
                         (std_sin m (d_div (toRad (d_sub (rnd 126.829) (rnd 126.736))) (Fin 2)))))
           (413 / 10 ^ 9) (416 / 10 ^ 9)"
proof -
  let ?x = "d_div (toRad (d_sub (rnd 37.567) (rnd 37.571))) (Fin 2)"
  let ?y = "d_div (toRad (d_sub (rnd 126.829) (rnd 126.736))) (Fin 2)"
  have s: "d_between (std_sin m ?x) (- (36 / 10 ^ 6)) (36 / 10 ^ 6)"
    by (rule d_between_sin [OF assms arex_half_dLat sin_small]) simp_all
  have A: "d_between (d_mul (std_sin m ?x) (std_sin m ?x)) (- (1 / 10 ^ 12)) (13 / 10 ^ 10)"
    by (rule d_between_square [OF s]) simp_all
  have c1: "d_between (std_cos m (toRad (rnd 37.571))) (79249 / 10 ^ 5) (79281 / 10 ^ 5)"
    by (rule d_between_cos [OF assms arex_lat1 cos_arex]) simp_all
  have c2: "d_between (std_cos m (toRad (rnd 37.567))) (79249 / 10 ^ 5) (79281 / 10 ^ 5)"
    by (rule d_between_cos [OF assms arex_lat2 cos_arex]) simp_all
  have t: "d_between (std_sin m ?y) (81148 / 10 ^ 8) (81161 / 10 ^ 8)"
    by (rule d_between_sin [OF assms arex_half_dLon sin_arex]) simp_all
  have K: "d_between (d_mul (std_cos m (toRad (rnd 37.571))) (std_cos m (toRad (rnd 37.567))))
             (62804 / 10 ^ 5) (62855 / 10 ^ 5)"
    by (rule d_between_mul [OF c1 c2]) simp_all
  have Kt: "d_between (d_mul (d_mul (std_cos m (toRad (rnd 37.571))) (std_cos m (toRad (rnd 37.567))))
                             (std_sin m ?y))
             (50964 / 10 ^ 8) (51014 / 10 ^ 8)"
    by (rule d_between_mul [OF K t]) simp_all
  have B: "d_between (d_mul (d_mul (d_mul (std_cos m (toRad (rnd 37.571)))
                                          (std_cos m (toRad (rnd 37.567)))) (std_sin m ?y))
                            (std_sin m ?y))
             (4135 / 10 ^ 10) (4141 / 10 ^ 10)"
    by (rule d_between_mul [OF Kt t]) simp_all
  show ?thesis
    by (rule d_between_add [OF A B]) simp_all
qed

lemma built_in_distance:
  assumes "libm_accurate m"
  shows "d_between (calcStraightDist m (rnd 37.571) (rnd 126.736) (rnd 37.567) (rnd 126.829))
           (816 / 100) (824 / 100)"
proof -
  define a where "a =
    d_add (d_mul (std_sin m (d_div (toRad (d_sub (rnd 37.567) (rnd 37.571))) (Fin 2)))
                 (std_sin m (d_div (toRad (d_sub (rnd 37.567) (rnd 37.571))) (Fin 2))))
          (d_mul (d_mul (d_mul (std_cos m (toRad (rnd 37.571))) (std_cos m (toRad (rnd 37.567))))
                        (std_sin m (d_div (toRad (d_sub (rnd 126.829) (rnd 126.736))) (Fin 2))))
                 (std_sin m (d_div (toRad (d_sub (rnd 126.829) (rnd 126.736))) (Fin 2))))"
  have a: "d_between a (413 / 10 ^ 9) (416 / 10 ^ 9)"
    unfolding a_def using assms by (rule haversine_arex)
  have l1: "d_eq (rnd 37.571) (Fin 0) = False" "d_eq (rnd 37.567) (Fin 0) = False"
    by (simp_all add: d_eq_def fp_eval)
  have eq: "calcStraightDist m (rnd 37.571) (rnd 126.736) (rnd 37.567) (rnd 126.829)
      = d_mul R (d_mul (Fin 2) (std_atan2 m (d_sqrt a) (d_sqrt (d_sub (Fin 1) a))))"
    by (simp only: calcStraightDist_def Let_def l1 a_def simp_thms if_False)
  have y: "d_between (d_sqrt a) (6419 / 10 ^ 7) (6451 / 10 ^ 7)"
    by (rule d_between_sqrt [OF a, of "642 / 10 ^ 6" "645 / 10 ^ 6"])
      (simp_all add: power2_eq_square)
  have one: "d_between (Fin 1) 1 1"
    by (rule d_betweenI) simp_all
  have b: "d_between (d_sub (Fin 1) a) (9999995 / 10 ^ 7) 1"
    by (rule d_between_sub [OF one a]) simp_all
  have x: "d_between (d_sqrt (d_sub (Fin 1) a)) (999999 / 10 ^ 6) (1000001 / 10 ^ 6)"
    by (rule d_between_sqrt [OF b, of "9999995 / 10 ^ 7" 1])
      (simp_all add: power2_eq_square)
  have at: "d_between (std_atan2 m (d_sqrt a) (d_sqrt (d_sub (Fin 1) a)))
              (6416 / 10 ^ 7) (6453 / 10 ^ 7)"
    by (rule d_between_atan2 [OF assms y x]) (simp_all add: power2_eq_square)
  have two: "d_between (Fin 2) 2 2"
    by (rule d_betweenI) simp_all
  have c: "d_between (d_mul (Fin 2) (std_atan2 m (d_sqrt a) (d_sqrt (d_sub (Fin 1) a))))
             (12831 / 10 ^ 7) (12907 / 10 ^ 7)"
    by (rule d_between_mul [OF two at]) simp_all
  have r: "d_between R 6371 6371"
    unfolding R_value by (rule d_betweenI) simp_all
  show ?thesis
    unfolding eq by (rule d_between_mul [OF r c]) simp_all
qed

lemma built_in_distance_text:
  assumes "libm_accurate m"
  shows "fixed1 (calcStraightDist m (rnd 37.571) (rnd 126.736) (rnd 37.567) (rnd 126.829)) = ''8.2''"
proof -
  obtain v where v: "calcStraightDist m (rnd 37.571) (rnd 126.736) (rnd 37.567) (rnd 126.829) = Fin v"
      "816 / 100 \<le> v" "v \<le> 824 / 100"
    using built_in_distance [OF assms] by (rule d_betweenE)
  have "fixed1 (Fin v) = ''8.2''"
    using v(2,3) by (intro fixed1_8_2) simp_all
  then show ?thesis
    by (simp only: v(1))
qed

lemma built_in_distance_pos:
  assumes "libm_accurate m"
  shows "d_less (Fin 0) (calcStraightDist m (rnd 37.571) (rnd 126.736) (rnd 37.567) (rnd 126.829))"
proof -
  obtain v where v: "calcStraightDist m (rnd 37.571) (rnd 126.736) (rnd 37.567) (rnd 126.829) = Fin v"
      "816 / 100 \<le> v" "v \<le> 824 / 100"
    using built_in_distance [OF assms] by (rule d_betweenE)
  then show ?thesis
    by simp
qed

text \<open>The library that rounds to the nearest value is accurate.\<close>

lemma rnd_near_value:
  assumes "\<bar>x\<bar> \<le> 4096"
  shows "near (rnd x) x"
proof -
  obtain y where "rnd x = Fin y" "\<bar>y - x\<bar> \<le> 1 / 2 ^ 40"
    using rnd_near [OF assms] by blast
  then show ?thesis
    by (simp add: near_def)
qed

lemma atan2_bound: "\<bar>atan2 y x\<bar> \<le> 6"
proof -
  define t where "t = arctan (y / x)"
  have t: "- (pi / 2) < t" "t < pi / 2"
    unfolding t_def by (rule arctan_lbound, rule arctan_ubound)
  have p: "0 < pi" "pi \<le> 4"
    using pi_less_4 by simp_all
  have "\<bar>t\<bar> \<le> 6" "\<bar>t + pi\<bar> \<le> 6" "\<bar>t - pi\<bar> \<le> 6"
    "\<bar>pi / 2\<bar> \<le> 6" "\<bar>- (pi / 2)\<bar> \<le> 6"
    using t p by linarith+
  then show ?thesis
    unfolding atan2_def t_def [symmetric] by (simp only: abs_zero split: if_split) simp
qed

lemma libm_exact_accurate: "libm_accurate libm_exact"
proof -
  have "\<bar>sin x\<bar> \<le> 4096" "\<bar>cos x\<bar> \<le> 4096" for x :: real
    using abs_sin_le_one [of x] abs_cos_le_one [of x] by linarith+
  moreover have "\<bar>atan2 y x\<bar> \<le> 4096" for y x
    using atan2_bound [of y x] by linarith
  ultimately show ?thesis
    by (simp add: libm_accurate_def libm_exact_def rnd_near_value)
qed

subsection \<open>The built-in data\<close>

lemmas data_defs =
  loadData_def Subway_init_def arex_line_def line9_def addStation_def Line_init_def
  st_gyeyang_def st_gimpo_airport_def st_magongnaru_def st_gaehwa_def st_gayang_def
  st_yeomchang_def st_dangsan_def st_yeouido_def st_noryangjin_def

lemmas run_defs =
  parseToken_def str_find_def substr_def npos_def token_name_def token_line_def
  segment_result_def calculateSegment_def lines_at_def findStation_def
  calcStraightDist_def d_eq_def string_of_int_def string_of_nat.simps digit_char_def fp_eval

lemmas render_defs =
  string_of_int_def string_of_nat.simps digit_char_def fp_eval

lemmas spec_defs =
  spec_parseToken_def spec_name_before_def spec_line_between_def spec_first_index_def

lemma arex_gyeyang:
  "findStation arex_line st_gyeyang
     = Some \<lparr>name = st_gyeyang, distFromStart = rnd 0.0, lat = rnd 37.571, lon = rnd 126.736\<rparr>"
  by (simp add: findStation_def data_defs)

lemma arex_magongnaru:
  "findStation arex_line st_magongnaru
     = Some \<lparr>name = st_magongnaru, distFromStart = rnd 9.5, lat = rnd 37.567, lon = rnd 126.829\<rparr>"
  by (simp add: findStation_def data_defs)

lemma line9_gaehwa:
  "findStation line9 st_gaehwa
     = Some \<lparr>name = st_gaehwa, distFromStart = rnd 0.0, lat = rnd 0.0, lon = rnd 0.0\<rparr>"
  by (simp add: findStation_def data_defs)

lemma line9_gimpo_airport:
  "findStation line9 st_gimpo_airport
     = Some \<lparr>name = st_gimpo_airport, distFromStart = rnd 3.6, lat = rnd 37.562, lon = rnd 126.801\<rparr>"
  by (simp add: findStation_def data_defs)

lemma line9_gayang:
  "findStation line9 st_gayang
     = Some \<lparr>name = st_gayang, distFromStart = rnd 10.5, lat = rnd 0.0, lon = rnd 0.0\<rparr>"
  by (simp add: findStation_def data_defs)

lemma lines_arex: "lines (loadData Subway_init csv_file_name) ''arex'' = Some arex_line"
  by (simp add: loadData_def Subway_init_def Let_def)

lemma lines_9: "lines (loadData Subway_init csv_file_name) ''9'' = Some line9"
  by (simp add: loadData_def Subway_init_def Let_def)

lemma avgSpeed_arex: "avgSpeed arex_line = rnd 60"
  by (simp add: arex_line_def addStation_def Line_init_def)

lemma avgSpeed_9: "avgSpeed line9 = rnd 47"
  by (simp add: line9_def addStation_def Line_init_def)

lemma rnd_zero: "rnd 0 = Fin 0"
  by (simp add: rnd_def round64_def)

lemma arex_minutes:
  "d_mul (d_div (d_abs (d_sub (rnd 0.0) (rnd 9.5))) (rnd 60)) (rnd 60.0) = Fin 9.5"
  by (simp add: fp_eval)

lemma arex_segment:
  assumes "libm_accurate m"
  shows "calculateSegment m (loadData Subway_init csv_file_name) st_gyeyang st_magongnaru ''arex''
     = (Inr (''9.5km(10'' @ str_minutes @ st_gyeyang @ ''-'' @ st_magongnaru @ str_straight
             @ ''8.2km)''),
        loadData Subway_init csv_file_name)"
proof -
  have k: "to_int (std_round (d_mul (d_div (d_abs (d_sub
             (distFromStart \<lparr>name = st_gyeyang, distFromStart = rnd 0.0, lat = rnd 37.571, lon = rnd 126.736\<rparr>)
             (distFromStart \<lparr>name = st_magongnaru, distFromStart = rnd 9.5, lat = rnd 37.567, lon = rnd 126.829\<rparr>)))
             (avgSpeed arex_line)) (rnd 60.0))) = Inr 10"
    by (simp add: avgSpeed_arex fp_eval)
  have d: "fixed1 (d_abs (d_sub (rnd 0.0) (rnd 9.5))) = ''9.5''"
    by (simp add: render_defs)
  have "calculateSegment m (loadData Subway_init csv_file_name) st_gyeyang st_magongnaru ''arex''
     = (Inr (''9.5km(10'' @ str_minutes @ st_gyeyang @ ''-'' @ st_magongnaru @ str_straight
            @ fixed1 (calcStraightDist m (rnd 37.571) (rnd 126.736) (rnd 37.567) (rnd 126.829))
            @ ''km)''),
        loadData Subway_init csv_file_name)"
    using calculateSegment_found [OF lines_arex arex_gyeyang arex_magongnaru k, of m]
      built_in_distance_pos [OF assms] d
    by (simp add: string_of_int_def string_of_nat.simps digit_char_def)
  then show ?thesis
    by (simp only: built_in_distance_text [OF assms] append.simps)
qed

lemma arex_segment_start:
  "\<exists>rest. fst (calculateSegment m (loadData Subway_init csv_file_name) st_gyeyang st_magongnaru
                  ''arex'')
     = Inr (''9.5km(10'' @ str_minutes @ st_gyeyang @ ''-'' @ st_magongnaru @ rest)"
proof -
  have k: "to_int (std_round (d_mul (d_div (d_abs (d_sub
             (distFromStart \<lparr>name = st_gyeyang, distFromStart = rnd 0.0, lat = rnd 37.571, lon = rnd 126.736\<rparr>)
             (distFromStart \<lparr>name = st_magongnaru, distFromStart = rnd 9.5, lat = rnd 37.567, lon = rnd 126.829\<rparr>)))
             (avgSpeed arex_line)) (rnd 60.0))) = Inr 10"
    by (simp add: avgSpeed_arex fp_eval)
  have d: "fixed1 (d_abs (d_sub (rnd 0.0) (rnd 9.5))) = ''9.5''"
    by (simp add: render_defs)
  show ?thesis
    using calculateSegment_found [OF lines_arex arex_gyeyang arex_magongnaru k, of m] d
    by (simp add: string_of_int_def string_of_nat.simps digit_char_def)
qed

subsection \<open>No failure on the built-in data\<close>

text \<open>
  The lines that \<open>loadData\<close> stores run at 60 and 47 km/h and are at most 22 km long:
  the minutes of a segment are an \<^verbatim>\<open>int\<close>, and \<open>main\<close> ends with an exit status and a
  text for every command line, whatever the mathematical library returns.
\<close>

lemma collect_defined:
  "(\<And>x. x \<in> set xs \<Longrightarrow> \<exists>v. x = Inr v) \<Longrightarrow> \<exists>vs. collect xs = Inr vs"
proof (induction xs)
  case Nil
  show ?case by simp
next
  case (Cons x xs)
  obtain v where "x = Inr v"
    using Cons.prems [of x] by auto
  moreover obtain vs where "collect xs = Inr vs"
    using Cons.IH Cons.prems by auto
  ultimately show ?case
    by simp
qed

lemma built_in_lines:
  assumes "lines (loadData Subway_init f) tag = Some l"
  shows "l = arex_line \<or> l = line9"
  using assms by (auto simp: loadData_def Subway_init_def Let_def split: if_splits)

lemma built_in_literals:
  "d_between (rnd 0.0) 0 22" "d_between (rnd 6.6) 0 22" "d_between (rnd 9.5) 0 22"
  "d_between (rnd 3.6) 0 22" "d_between (rnd 10.5) 0 22" "d_between (rnd 13.0) 0 22"
  "d_between (rnd 16.5) 0 22" "d_between (rnd 19.0) 0 22" "d_between (rnd 22.0) 0 22"
  by (simp_all add: d_between_def fp_eval)

lemma built_in_stations:
  assumes "l = arex_line \<or> l = line9" and "findStation l nm = Some st"
  shows "d_between (distFromStart st) 0 22"
proof -
  have "st \<in> set (stations l)"
    using assms(2) by (auto simp: findStation_def find_Some_iff)
  with assms(1) show ?thesis
    using built_in_literals
    by (auto simp: arex_line_def line9_def addStation_def Line_init_def)
qed

lemma built_in_speed:
  assumes "l = arex_line \<or> l = line9"
  shows "avgSpeed l = Fin 60 \<or> avgSpeed l = Fin 47"
  using assms by (auto simp: avgSpeed_arex avgSpeed_9 fp_eval)

lemma to_int_small:
  assumes "d_between d (- 1000) 1000"
  shows "\<exists>k. to_int (std_round d) = Inr k"
proof -
  obtain x where x: "d = Fin x" "- 1000 \<le> x" "x \<le> 1000"
    using assms by (rule d_betweenE)
  show ?thesis
  proof (cases "0 \<le> x")
    case True
    then have "0 \<le> \<lfloor>x + 1 / 2\<rfloor>" "\<lfloor>x + 1 / 2\<rfloor> \<le> 1001"
      using x(3) by linarith+
    with True show ?thesis
      by (simp add: x(1))
  next
    case False
    then have "\<lceil>x - 1 / 2\<rceil> \<le> 0" "- 1001 \<le> \<lceil>x - 1 / 2\<rceil>"
      using x(2) by linarith+
    with False show ?thesis
      by (simp add: x(1))
  qed
qed

lemma built_in_minutes:
  assumes "d_between p 0 22" and "d_between q 0 22" and "v = Fin 60 \<or> v = Fin 47"
  shows "\<exists>k. to_int (std_round (d_mul (d_div (d_abs (d_sub p q)) v) (rnd 60.0))) = Inr k"
proof -
  have "d_between (d_sub p q) (- 23) 23"
    by (rule d_between_sub [OF assms(1,2)]) simp_all
  then obtain x where x: "d_sub p q = Fin x" "- 23 \<le> x" "x \<le> 23"
    by (rule d_betweenE)
  have a: "0 \<le> \<bar>x\<bar>" "\<bar>x\<bar> \<le> 23"
    using x(2,3) by linarith+
  have sixty: "rnd 60 = Fin 60"
    by (simp add: fp_eval)
  from assms(3) have "d_between (d_div (d_abs (d_sub p q)) v) (- 1) 1"
  proof
    assume v: "v = Fin 60"
    have "0 \<le> \<bar>x\<bar> / 60" "\<bar>x\<bar> / 60 \<le> 23 / 60"
      using a by simp_all
    then have "d_between (rnd (\<bar>x\<bar> / 60)) (- 1) 1"
      by (intro rnd_within [of 0 _ "23 / 60"]) simp_all
    then show ?thesis
      by (simp add: x(1) v)
  next
    assume v: "v = Fin 47"
    have "0 \<le> \<bar>x\<bar> / 47" "\<bar>x\<bar> / 47 \<le> 23 / 47"
      using a by simp_all
    then have "d_between (rnd (\<bar>x\<bar> / 47)) (- 1) 1"
      by (intro rnd_within [of 0 _ "23 / 47"]) simp_all
    then show ?thesis
      by (simp add: x(1) v)
  qed
  then obtain y where y: "d_div (d_abs (d_sub p q)) v = Fin y" "- 1 \<le> y" "y \<le> 1"
    by (rule d_betweenE)
  have "- 60 \<le> y * 60" "y * 60 \<le> 60"
    using y(2,3) by simp_all
  then have "d_between (rnd (y * 60)) (- 1000) 1000"
    by (intro rnd_within [of "- 60" _ 60]) simp_all
  then have "d_between (d_mul (d_div (d_abs (d_sub p q)) v) (rnd 60.0)) (- 1000) 1000"
    by (simp add: y(1) sixty)
  then show ?thesis
    by (rule to_int_small)
qed

lemma built_in_segment_defined:
  "\<exists>s. fst (calculateSegment m (loadData Subway_init f) a b tag) = Inr s"
proof (cases "lines (loadData Subway_init f) tag")
  case None
  then show ?thesis
    by (simp add: calculateSegment_no_line)
next
  case (Some l)
  then have l: "l = arex_line \<or> l = line9"
    by (rule built_in_lines)
  show ?thesis
  proof (cases "findStation l a = None \<or> findStation l b = None")
    case True
    with Some show ?thesis
      by (simp add: calculateSegment_no_station)
  next
    case False
    then obtain st1 st2 where st: "findStation l a = Some st1" "findStation l b = Some st2"
      by auto
    obtain k where "to_int (std_round (d_mul (d_div (d_abs (d_sub (distFromStart st1)
        (distFromStart st2))) (avgSpeed l)) (rnd 60.0))) = Inr k"
      using built_in_minutes [OF built_in_stations [OF l st(1)] built_in_stations [OF l st(2)]
          built_in_speed [OF l]] by blast
    then show ?thesis
      using Some st by (simp add: calculateSegment_found)
  qed
qed

lemma main_defined:
  assumes "\<forall>t \<in> set tokens. length t < 2 ^ 64"
  shows "\<exists>status out. main m (prog # tokens) = Inr (status, out)"
proof (cases "length (prog # tokens) < 3")
  case True
  then show ?thesis
    by (simp add: main_def)
next
  case False
  let ?sw = "loadData Subway_init csv_file_name"
  have "\<exists>vs. collect (map (\<lambda>i. segment_result m ?sw (tokens ! i) (tokens ! (i + 1)))
                        [0..<length tokens - 1]) = Inr vs"
    by (rule collect_defined) (auto simp: segment_result_def built_in_segment_defined)
  then obtain vs where "route_loop m ?sw (prog # tokens) 1 [] = Inr (join_segments vs)"
    using route_loop_tokens [OF assms, of m ?sw prog] by auto
  with False show ?thesis
    by (simp add: main_def Let_def del: One_nat_def)
qed

subsection \<open>Finite values\<close>

lemma round64_nonneg: "0 \<le> x \<Longrightarrow> 0 \<le> round64 x"
  using ulp_pos [of x] by (simp add: round64_def round_half_even_nonneg)

lemma d_abs_rnd: "d_abs (rnd x) = rnd \<bar>x\<bar>"
proof (cases "0 \<le> x")
  case True
  then show ?thesis
    using round64_nonneg [of x] by (simp add: rnd_def)
next
  case False
  then have "d_abs (rnd x) = d_abs (d_neg (rnd (- x)))"
    using rnd_minus [of "- x"] by simp
  also have "\<dots> = d_abs (rnd (- x))"
    by (rule d_abs_neg)
  also have "\<dots> = rnd (- x)"
    using False round64_nonneg [of "- x"] by (simp add: rnd_def)
  finally show ?thesis
    using False by simp
qed

lemma minutes_finite:
  assumes "d_mul (d_div d v) w = Fin t"
  shows "\<exists>x. d = Fin x"
proof (cases d)
  case (Fin x)
  then show ?thesis by simp
next
  case PInf
  with assms show ?thesis
    by (cases v; cases w) (simp_all split: if_splits)
next
  case NInf
  with assms show ?thesis
    by (cases v; cases w) (simp_all split: if_splits)
next
  case NaN
  with assms show ?thesis
    by (cases w) simp_all
qed

text \<open>
  With an accurate library the straight-line distance is finite or NaN: sines and
  cosines are at most 2 in absolute value, and every later value is bounded.
\<close>

lemma nan_or_withinI: "\<bar>y\<bar> \<le> B \<Longrightarrow> nan_or_within (Fin y) B"
  by (simp add: nan_or_within_def)

lemma nan_or_within_cases:
  assumes "nan_or_within d B"
  obtains "d = NaN" | y where "d = Fin y" and "\<bar>y\<bar> \<le> B"
  using assms by (cases d) (simp_all add: nan_or_within_def)

lemma rnd_tame:
  assumes "\<bar>x\<bar> \<le> B" and "B \<le> 4096"
  shows "nan_or_within (rnd x) (B + 1)"
proof -
  have "\<bar>x\<bar> \<le> 4096"
    using assms by linarith
  then obtain y where y: "rnd x = Fin y" "\<bar>y - x\<bar> \<le> 1 / 2 ^ 40"
    using rnd_near by blast
  have "(1 / 2 ^ 40 :: real) \<le> 1"
    by simp
  then have "\<bar>y\<bar> \<le> B + 1"
    using y(2) assms(1) by linarith
  then show ?thesis
    by (simp add: y(1) nan_or_within_def)
qed

lemma tame_sin:
  assumes "libm_accurate m"
  shows "nan_or_within (std_sin m a) 2"
proof (cases a)
  case (Fin x)
  have "near (l_sin m x) (sin x)"
    using assms by (simp add: libm_accurate_def)
  then obtain z where z: "l_sin m x = Fin z" "\<bar>z - sin x\<bar> \<le> 1 / 2 ^ 40"
    by (cases "l_sin m x") (simp_all add: near_def)
  have "(1 / 2 ^ 40 :: real) \<le> 1"
    by simp
  then have "\<bar>z\<bar> \<le> 2"
    using z(2) abs_sin_le_one [of x] by linarith
  then show ?thesis
    by (simp add: Fin z(1) nan_or_within_def)
qed (simp_all add: nan_or_within_def)

lemma tame_cos:
  assumes "libm_accurate m"
  shows "nan_or_within (std_cos m a) 2"
proof (cases a)
  case (Fin x)
  have "near (l_cos m x) (cos x)"
    using assms by (simp add: libm_accurate_def)
  then obtain z where z: "l_cos m x = Fin z" "\<bar>z - cos x\<bar> \<le> 1 / 2 ^ 40"
    by (cases "l_cos m x") (simp_all add: near_def)
  have "(1 / 2 ^ 40 :: real) \<le> 1"
    by simp
  then have "\<bar>z\<bar> \<le> 2"
    using z(2) abs_cos_le_one [of x] by linarith
  then show ?thesis
    by (simp add: Fin z(1) nan_or_within_def)
qed (simp_all add: nan_or_within_def)

lemma tame_mul:
  assumes "nan_or_within a A" and "nan_or_within b B" and "A * B \<le> 4096"
  shows "nan_or_within (d_mul a b) (A * B + 1)"
  using assms(1)
proof (cases rule: nan_or_within_cases)
  case 1
  then show ?thesis
    by (simp add: nan_or_within_def)
next
  case (2 x)
  note x = this
  from assms(2) show ?thesis
  proof (cases rule: nan_or_within_cases)
    case 1
    then show ?thesis
      by (simp add: x(1) nan_or_within_def)
  next
    case (2 y)
    have "\<bar>x\<bar> * \<bar>y\<bar> \<le> A * B"
      using x(2) 2(2) by (intro mult_mono) simp_all
    then have "\<bar>x * y\<bar> \<le> A * B"
      by (simp add: abs_mult)
    then have "nan_or_within (rnd (x * y)) (A * B + 1)"
      using assms(3) by (rule rnd_tame)
    then show ?thesis
      by (simp add: x(1) 2(1))
  qed
qed

lemma tame_add:
  assumes "nan_or_within a A" and "nan_or_within b B" and "A + B \<le> 4096"
  shows "nan_or_within (d_add a b) (A + B + 1)"
  using assms(1)
proof (cases rule: nan_or_within_cases)
  case 1
  then show ?thesis
    by (simp add: nan_or_within_def)
next
  case (2 x)
  note x = this
  from assms(2) show ?thesis
  proof (cases rule: nan_or_within_cases)
    case 1
    then show ?thesis
      by (simp add: x(1) nan_or_within_def)
  next
    case (2 y)
    have "\<bar>x + y\<bar> \<le> A + B"
      using x(2) 2(2) by linarith
    then have "nan_or_within (rnd (x + y)) (A + B + 1)"
      using assms(3) by (rule rnd_tame)
    then show ?thesis
      by (simp add: x(1) 2(1))
  qed
qed

lemma tame_one_minus:
  assumes "nan_or_within a A" and "1 + A \<le> 4096"
  shows "nan_or_within (d_sub (Fin 1) a) (1 + A + 1)"
  using assms(1)
proof (cases rule: nan_or_within_cases)
  case 1
  then show ?thesis
    by (simp add: nan_or_within_def d_sub_def)
next
  case (2 x)
  have "\<bar>1 - x\<bar> \<le> 1 + A"
    using 2(2) by linarith
  then have "nan_or_within (rnd (1 - x)) (1 + A + 1)"
    using assms(2) by (rule rnd_tame)
  then show ?thesis
    by (simp add: 2(1) d_sub_def)
qed

lemma tame_sqrt:
  assumes "nan_or_within a A" and "A + 1 \<le> 4096"
  shows "nan_or_within (d_sqrt a) (A + 1 + 1)"
  using assms(1)
proof (cases rule: nan_or_within_cases)
  case 1
  then show ?thesis
    by (simp add: nan_or_within_def)
next
  case (2 x)
  show ?thesis
  proof (cases "x < 0")
    case True
    then show ?thesis
      by (simp add: 2(1) nan_or_within_def)
  next
    case False
    then have "x \<le> (x + 1)\<^sup>2"
      by (simp add: power2_eq_square algebra_simps)
    then have "sqrt x \<le> x + 1"
      using False by (intro real_le_lsqrt) simp_all
    moreover have "0 \<le> sqrt x"
      using False by simp
    ultimately have "\<bar>sqrt x\<bar> \<le> A + 1"
      using 2(2) by linarith
    then have "nan_or_within (rnd (sqrt x)) (A + 1 + 1)"
      using assms(2) by (rule rnd_tame)
    with False show ?thesis
      by (simp add: 2(1))
  qed
qed

lemma tame_atan2:
  assumes "libm_accurate m" and "nan_or_within b B" and "nan_or_within a A"
  shows "nan_or_within (std_atan2 m b a) 7"
  using assms(2)
proof (cases rule: nan_or_within_cases)
  case 1
  then show ?thesis
    by (simp add: nan_or_within_def std_atan2_def)
next
  case (2 y)
  note y = this
  from assms(3) show ?thesis
  proof (cases rule: nan_or_within_cases)
    case 1
    then show ?thesis
      by (simp add: nan_or_within_def std_atan2_def)
  next
    case (2 x)
    have "near (l_atan2 m (Fin y) (Fin x)) (atan2 y x)"
      using assms(1) by (simp add: libm_accurate_def)
    then obtain z where z: "l_atan2 m (Fin y) (Fin x) = Fin z" "\<bar>z - atan2 y x\<bar> \<le> 1 / 2 ^ 40"
      by (cases "l_atan2 m (Fin y) (Fin x)") (simp_all add: near_def)
    have "(1 / 2 ^ 40 :: real) \<le> 1"
      by simp
    then have "\<bar>z\<bar> \<le> 7"
      using z(2) atan2_bound [of y x] by linarith
    then show ?thesis
      by (simp add: y(1) 2(1) z(1) std_atan2_def nan_or_within_def)
  qed
qed

lemma calcStraightDist_finite:
  assumes "libm_accurate m"
  shows "calcStraightDist m la lo la' lo' \<noteq> PInf"
proof (cases "d_eq la (Fin 0) \<or> d_eq la' (Fin 0)")
  case True
  then show ?thesis
    by (auto simp: calcStraightDist_def rnd_zero)
next
  case False
  define x where "x = d_div (toRad (d_sub la' la)) (Fin 2)"
  define y where "y = d_div (toRad (d_sub lo' lo)) (Fin 2)"
  define a where "a = d_add (d_mul (std_sin m x) (std_sin m x))
      (d_mul (d_mul (d_mul (std_cos m (toRad la)) (std_cos m (toRad la'))) (std_sin m y))
             (std_sin m y))"
  define c where "c = d_mul (Fin 2) (std_atan2 m (d_sqrt a) (d_sqrt (d_sub (Fin 1) a)))"
  have eq: "calcStraightDist m la lo la' lo' = d_mul R c"
    using False by (simp add: calcStraightDist_def Let_def c_def a_def x_def y_def)
  have A: "nan_or_within (d_mul (std_sin m x) (std_sin m x)) (2 * 2 + 1)"
    by (rule tame_mul [OF tame_sin [OF assms] tame_sin [OF assms]]) simp
  have K: "nan_or_within (d_mul (std_cos m (toRad la)) (std_cos m (toRad la'))) (2 * 2 + 1)"
    by (rule tame_mul [OF tame_cos [OF assms] tame_cos [OF assms]]) simp
  have Kt: "nan_or_within (d_mul (d_mul (std_cos m (toRad la)) (std_cos m (toRad la')))
      (std_sin m y)) ((2 * 2 + 1) * 2 + 1)"
    by (rule tame_mul [OF K tame_sin [OF assms]]) simp
  have B: "nan_or_within (d_mul (d_mul (d_mul (std_cos m (toRad la)) (std_cos m (toRad la')))
      (std_sin m y)) (std_sin m y)) (((2 * 2 + 1) * 2 + 1) * 2 + 1)"
    by (rule tame_mul [OF Kt tame_sin [OF assms]]) simp
  have a: "nan_or_within a ((2 * 2 + 1) + (((2 * 2 + 1) * 2 + 1) * 2 + 1) + 1)"
    unfolding a_def by (rule tame_add [OF A B]) simp
  have ya: "nan_or_within (d_sqrt a)
      ((2 * 2 + 1) + (((2 * 2 + 1) * 2 + 1) * 2 + 1) + 1 + 1 + 1)"
    by (rule tame_sqrt [OF a]) simp
  have b: "nan_or_within (d_sub (Fin 1) a)
      (1 + ((2 * 2 + 1) + (((2 * 2 + 1) * 2 + 1) * 2 + 1) + 1) + 1)"
    by (rule tame_one_minus [OF a]) simp
  have xb: "nan_or_within (d_sqrt (d_sub (Fin 1) a))
      (1 + ((2 * 2 + 1) + (((2 * 2 + 1) * 2 + 1) * 2 + 1) + 1) + 1 + 1 + 1)"
    by (rule tame_sqrt [OF b]) simp
  have at: "nan_or_within (std_atan2 m (d_sqrt a) (d_sqrt (d_sub (Fin 1) a))) 7"
    using assms ya xb by (rule tame_atan2)
  have two: "nan_or_within (Fin 2) 2"
    by (rule nan_or_withinI) simp
  have "nan_or_within c (2 * 7 + 1)"
    unfolding c_def by (rule tame_mul [OF two at]) simp
  then show ?thesis
  proof (cases rule: nan_or_within_cases)
    case 1
    then show ?thesis
      by (simp add: eq R_value)
  next
    case (2 v)
    then have "\<bar>6371 * v\<bar> < 2 ^ 1024 - 2 ^ 970"
      by (simp add: abs_mult)
    then show ?thesis
      by (simp add: eq R_value 2(1) rnd_def)
  qed
qed

subsection \<open>A distance that is not a number\<close>

text \<open>
  Between the two stations of \<open>far_network\<close> the difference of the latitudes is an
  infinity, its sine is NaN, and so is the distance, whatever the mathematical library.
\<close>

lemma far_stations:
  "lines far_network ''far'' = Some far_line"
  "findStation far_line ''A''
     = Some \<lparr>name = ''A'', distFromStart = rnd 0.0, lat = Fin (2 ^ 1023), lon = rnd 1.0\<rparr>"
  "findStation far_line ''B''
     = Some \<lparr>name = ''B'', distFromStart = rnd 9.5, lat = Fin (- (2 ^ 1023)), lon = rnd 1.0\<rparr>"
  "avgSpeed far_line = rnd 60"
  by (simp_all add: far_network_def findStation_def far_line_def addStation_def Line_init_def)

lemma far_difference: "d_sub (Fin (- (2 ^ 1023))) (Fin (2 ^ 1023)) = NInf"
  by (simp add: d_sub_def rnd_def)

lemma far_distance:
  "calcStraightDist m (Fin (2 ^ 1023)) (rnd 1.0) (Fin (- (2 ^ 1023))) (rnd 1.0) = NaN"
  by (simp add: calcStraightDist_def toRad_def PI_def R_def d_eq_def std_atan2_def fp_eval)

lemma far_segment:
  "fst (calculateSegment m far_network ''A'' ''B'' ''far'') = Inr (''9.5km(10'' @ str_minutes @ ''A-B)'')"
proof -
  have k: "to_int (std_round (d_mul (d_div (d_abs (d_sub
             (distFromStart \<lparr>name = ''A'', distFromStart = rnd 0.0, lat = Fin (2 ^ 1023), lon = rnd 1.0\<rparr>)
             (distFromStart \<lparr>name = ''B'', distFromStart = rnd 9.5, lat = Fin (- (2 ^ 1023)), lon = rnd 1.0\<rparr>)))
             (avgSpeed far_line)) (rnd 60.0))) = Inr 10"
    by (simp add: far_stations(4) fp_eval)
  have d: "fixed1 (d_abs (d_sub (rnd 0.0) (rnd 9.5))) = ''9.5''"
    by (simp add: render_defs)
  show ?thesis
    using calculateSegment_found [OF far_stations(1-3) k, of m] far_distance [of m] d
    by (simp add: string_of_int_def string_of_nat.simps digit_char_def)
qed

section \<open>The claims of the specification\<close>

text \<open>
  Claim C1. For a command line with \<open>n \<ge> 2\<close> tokens the report is the concatenation,
  from left to right and separated by a comma and a blank, of exactly \<open>n - 1\<close> segment
  results. Segment \<open>i\<close> is computed from the name of token \<open>i\<close>, the name of token
  \<open>i + 1\<close> and the line tag of token \<open>i\<close>; the line tag of token \<open>i + 1\<close> plays
  no part in it. A failure of a segment ends the run. The second half is the same fact
  for \<open>main\<close>, which loads the built-in data and ends the report with a newline.
\<close>

theorem route_report:
  assumes "2 \<le> length tokens" and "\<forall>t \<in> set tokens. length t < 2 ^ 64"
  shows "route_loop m sw (prog # tokens) 1 [] =
           (case collect (map (\<lambda>i. segment_result m sw (tokens ! i) (tokens ! (i + 1)))
                            [0..<length tokens - 1]) of
              Inl e \<Rightarrow> Inl e
            | Inr segs \<Rightarrow> Inr (join_segments segs))
         \<and> main m (prog # tokens) =
           (case collect (map (\<lambda>i. segment_result m (loadData Subway_init csv_file_name)
                                      (tokens ! i) (tokens ! (i + 1)))
                            [0..<length tokens - 1]) of
              Inl e \<Rightarrow> Inl e
            | Inr segs \<Rightarrow> Inr (0, join_segments segs @ [CHR 0x0A]))"
proof -
  have r: "\<And>sw. route_loop m sw (prog # tokens) 1 [] =
           (case collect (map (\<lambda>i. segment_result m sw (tokens ! i) (tokens ! (i + 1)))
                            [0..<length tokens - 1]) of
              Inl e \<Rightarrow> Inl e
            | Inr segs \<Rightarrow> Inr (join_segments segs))"
    using assms(2) by (rule route_loop_tokens)
  have "\<not> length (prog # tokens) < 3"
    using assms(1) by simp
  then have m: "main m (prog # tokens) =
      (case route_loop m (loadData Subway_init csv_file_name) (prog # tokens) 1 [] of
         Inl e \<Rightarrow> Inl e
       | Inr result \<Rightarrow> Inr (0, result @ [CHR 0x0A]))"
    by (simp only: main_def Let_def if_False)
  show ?thesis
    unfolding m r by (simp split: sum.split)
qed

text \<open>
  An itinerary over the built-in data: the first segment is on line 9, the tag of the
  first token, although the second token carries the tag \<open>arex\<close>.
\<close>

theorem route_report_witness:
  "2 \<le> length [st_gaehwa @ ''(9)'', st_gayang @ ''(arex)'', ''X'']
   \<and> route_loop libm_exact (loadData Subway_init csv_file_name)
        [''./a.out'', st_gaehwa @ ''(9)'', st_gayang @ ''(arex)'', ''X''] 1 []
      = Inr (''10.5km(13'' @ str_minutes @ st_gaehwa @ ''-'' @ st_gayang @ '')''
             @ '', '' @ msg_no_station @ st_gayang @ '' or X)'')"
  using route_report [where tokens = "[st_gaehwa @ ''(9)'', st_gayang @ ''(arex)'', ''X'']"
      and m = libm_exact and sw = "loadData Subway_init csv_file_name" and prog = "''./a.out''"]
  by (simp add: data_defs run_defs)

text \<open>
  Claim C2, amended. When a token lacks \<open>(\<close> or lacks \<open>)\<close>, the name is the whole
  token and the line tag is empty. When it has both and the first \<open>(\<close> comes before the
  first \<open>)\<close>, the name is the text before the first \<open>(\<close> and the line tag is the
  text between the first \<open>(\<close> and the first \<open>)\<close>. In every case the name is as the
  specification says. The claim as the specification states it, for every token with both
  characters, fails when the first \<open>)\<close> comes before the first \<open>(\<close>.
\<close>

theorem parseToken_spec:
  assumes "length t < 2 ^ 64"
  shows "(CHR ''('' \<notin> set t \<or> CHR '')'' \<notin> set t
            \<or> spec_first_index (CHR ''('') t < spec_first_index (CHR '')'') t
          \<longrightarrow> parseToken t = Inr (spec_parseToken t))
         \<and> (\<exists>tag. parseToken t = Inr (fst (spec_parseToken t), tag))"
proof (cases "CHR ''('' \<in> set t \<and> CHR '')'' \<in> set t")
  case False
  then show ?thesis
    by (auto simp: parseToken_absent spec_parseToken_def)
next
  case True
  then have "parseToken t = Inr (spec_name_before t, spec_line_between t)"
    if "spec_first_index (CHR ''('') t < spec_first_index (CHR '')'') t"
    using assms that by (simp add: parseToken_ordered)
  moreover have "\<exists>tag. parseToken t = Inr (spec_name_before t, tag)"
    using assms True by (simp add: parseToken_present)
  ultimately show ?thesis
    using True by (simp add: spec_parseToken_def)
qed

text \<open>The two examples of the specification.\<close>

theorem parseToken_spec_witness:
  "length ''Station(line9)'' < 2 ^ 64
   \<and> spec_first_index (CHR ''('') ''Station(line9)'' < spec_first_index (CHR '')'') ''Station(line9)''
   \<and> parseToken ''Station(line9)'' = Inr (''Station'', ''line9'')
   \<and> CHR ''('' \<notin> set ''Station''
   \<and> parseToken ''Station'' = Inr (''Station'', [])"
  using parseToken_spec [of "''Station(line9)''"] parseToken_spec [of "''Station''"]
  by (simp add: spec_defs)

text \<open>
  In \<^verbatim>\<open>)a(b\<close> the first \<open>)\<close> is at index 0 and the first \<open>(\<close> at index 2. The
  length \<^verbatim>\<open>closeParen - openParen - 1\<close> wraps around, and the line tag is \<open>b\<close>, the text
  after the \<open>(\<close>, which does not lie between the two characters.
\<close>

theorem parseToken_counterexample:
  "CHR ''('' \<in> set '')a(b'' \<and> CHR '')'' \<in> set '')a(b''
   \<and> parseToken '')a(b'' = Inr ('')a'', ''b'')
   \<and> spec_line_between '')a(b'' = []
   \<and> parseToken '')a(b'' \<noteq> Inr (spec_parseToken '')a(b'')"
  by (simp add: run_defs spec_defs)

text \<open>
  Claim C3. A line tag that is not a key of \<open>lines\<close> gives a string that names the tag;
  a station name that is not on the line gives a string with the two names. Both are
  results like any other: whatever the position of such a segment in the itinerary, the
  report carries the string in the place of the segment, between the results of the
  segments before it and after it.
\<close>

theorem errors_are_reported:
  assumes "\<forall>t \<in> set tokens. length t < 2 ^ 64"
  shows "(lines sw tag = None
            \<longrightarrow> calculateSegment m sw a b tag = (Inr (msg_no_line @ tag @ '')''), sw))
         \<and> (lines sw tag = Some l \<and> (findStation l a = None \<or> findStation l b = None)
            \<longrightarrow> calculateSegment m sw a b tag
                  = (Inr (msg_no_station @ a @ '' or '' @ b @ '')''), sw))
         \<and> route_loop m sw (prog # tokens) 1 [] =
             (case collect
                (map (\<lambda>i. case lines sw (token_line (tokens ! i)) of
                             None \<Rightarrow> Inr (msg_no_line @ token_line (tokens ! i) @ '')'')
                           | Some l' \<Rightarrow>
                               if findStation l' (token_name (tokens ! i)) = None
                                  \<or> findStation l' (token_name (tokens ! (i + 1))) = None
                               then Inr (msg_no_station @ token_name (tokens ! i) @ '' or ''
                                         @ token_name (tokens ! (i + 1)) @ '')'')
                               else segment_result m sw (tokens ! i) (tokens ! (i + 1)))
                   [0..<length tokens - 1]) of
                Inl e \<Rightarrow> Inl e
              | Inr segs \<Rightarrow> Inr (join_segments segs))"
proof -
  have "segment_result m sw t t' =
          (case lines sw (token_line t) of
             None \<Rightarrow> Inr (msg_no_line @ token_line t @ '')'')
           | Some l' \<Rightarrow>
               if findStation l' (token_name t) = None \<or> findStation l' (token_name t') = None
               then Inr (msg_no_station @ token_name t @ '' or '' @ token_name t' @ '')'')
               else segment_result m sw t t')" for t t'
    by (auto simp: segment_result_def calculateSegment_no_line calculateSegment_no_station
        split: option.split)
  then have "route_loop m sw (prog # tokens) 1 [] =
             (case collect
                (map (\<lambda>i. case lines sw (token_line (tokens ! i)) of
                             None \<Rightarrow> Inr (msg_no_line @ token_line (tokens ! i) @ '')'')
                           | Some l' \<Rightarrow>
                               if findStation l' (token_name (tokens ! i)) = None
                                  \<or> findStation l' (token_name (tokens ! (i + 1))) = None
                               then Inr (msg_no_station @ token_name (tokens ! i) @ '' or ''
                                         @ token_name (tokens ! (i + 1)) @ '')'')
                               else segment_result m sw (tokens ! i) (tokens ! (i + 1)))
                   [0..<length tokens - 1]) of
                Inl e \<Rightarrow> Inl e
              | Inr segs \<Rightarrow> Inr (join_segments segs))"
    unfolding route_loop_tokens [OF assms] by (simp only: flip: )
  then show ?thesis
    by (simp add: calculateSegment_no_line calculateSegment_no_station)
qed

text \<open>
  An unknown line 7 in the second of three segments: its message stands between the
  results of the first and of the third segment.
\<close>

theorem errors_are_reported_witness:
  "route_loop libm_exact (loadData Subway_init csv_file_name)
     [''./a.out'', st_gaehwa @ ''(9)'', st_gayang @ ''(7)'', st_gaehwa @ ''(9)'', st_gayang] 1 []
   = Inr (''10.5km(13'' @ str_minutes @ st_gaehwa @ ''-'' @ st_gayang @ '')'' @ '', ''
          @ msg_no_line @ ''7)'' @ '', ''
          @ ''10.5km(13'' @ str_minutes @ st_gaehwa @ ''-'' @ st_gayang @ '')'')"
  using errors_are_reported [where tokens = "[st_gaehwa @ ''(9)'', st_gayang @ ''(7)'', st_gaehwa @ ''(9)'', st_gayang]"
      and m = libm_exact and sw = "loadData Subway_init csv_file_name" and tag = "''7''"
      and a = st_gaehwa and b = st_gayang and l = arex_line and prog = "''./a.out''"]
  by (simp add: data_defs run_defs upt_conv_Cons)

text \<open>
  Claim C4, amended. A segment whose line and stations are found is rendered as the track
  distance with one digit after the point, \<open>km(\<close>, the minutes, the unit, the two names
  with a hyphen between them, the straight-line part, and a closing parenthesis. The
  minutes are the double \<open>(distance / avgSpeed) * 60\<close>, each of the two operations
  rounded to the format, rounded to the nearest integer, a half away from zero. The track
  distance is finite, and
  what \<open>fixed1\<close> prints for a finite value is a sign, digits, a point and one digit, and
  denotes the absolute value to within a twentieth. The straight-line part is present
  exactly when the straight-line distance is greater than 0: it is left out when the
  distance is 0 and also when it is NaN. With an accurate mathematical library a
  straight-line distance that is printed is finite.
\<close>

theorem segment_rendering:
  assumes "lines sw tag = Some l"
    and "findStation l a = Some st1" and "findStation l b = Some st2"
    and "to_int (std_round (d_mul (d_div (d_abs (d_sub (distFromStart st1) (distFromStart st2)))
                                         (avgSpeed l)) (rnd 60.0))) = Inr k"
  shows "fst (calculateSegment m sw a b tag) =
           Inr (fixed1 (d_abs (d_sub (distFromStart st1) (distFromStart st2))) @ ''km(''
                @ string_of_int k @ str_minutes @ a @ ''-'' @ b
                @ (if d_less (Fin 0) (calcStraightDist m (lat st1) (lon st1) (lat st2) (lon st2))
                   then str_straight
                        @ fixed1 (calcStraightDist m (lat st1) (lon st1) (lat st2) (lon st2))
                        @ ''km''
                   else [])
                @ '')'')
         \<and> std_round (d_mul (d_div (d_abs (d_sub (distFromStart st1) (distFromStart st2)))
                                 (avgSpeed l)) (rnd 60.0)) = Fin (of_int k)
         \<and> (\<exists>t. d_mul (d_div (d_abs (d_sub (distFromStart st1) (distFromStart st2))) (avgSpeed l))
                   (rnd 60.0) = Fin t
                \<and> \<bar>of_int k - t\<bar> \<le> 1 / 2)
         \<and> (\<exists>x. d_abs (d_sub (distFromStart st1) (distFromStart st2)) = Fin x)
         \<and> (\<forall>x. \<exists>whole d. fixed1 (Fin x) = (if x < 0 then ''-'' else []) @ whole @ ''.'' @ [d]
               \<and> whole \<noteq> [] \<and> set whole \<subseteq> set ''0123456789'' \<and> d \<in> set ''0123456789''
               \<and> \<bar>real (digits_value whole) + real (digit_value d) / 10 - \<bar>x\<bar>\<bar> \<le> 1 / 20)
         \<and> (calcStraightDist m (lat st1) (lon st1) (lat st2) (lon st2) = Fin 0
              \<or> calcStraightDist m (lat st1) (lon st1) (lat st2) (lon st2) = NaN
             \<longrightarrow> \<not> d_less (Fin 0) (calcStraightDist m (lat st1) (lon st1) (lat st2) (lon st2)))
         \<and> (libm_accurate m
              \<and> d_less (Fin 0) (calcStraightDist m (lat st1) (lon st1) (lat st2) (lon st2))
             \<longrightarrow> (\<exists>v. calcStraightDist m (lat st1) (lon st1) (lat st2) (lon st2) = Fin v \<and> 0 < v))"
proof -
  let ?d = "d_abs (d_sub (distFromStart st1) (distFromStart st2))"
  let ?t = "d_mul (d_div ?d (avgSpeed l)) (rnd 60.0)"
  let ?s = "calcStraightDist m (lat st1) (lon st1) (lat st2) (lon st2)"
  have out: "fst (calculateSegment m sw a b tag) =
           Inr (fixed1 ?d @ ''km('' @ string_of_int k @ str_minutes @ a @ ''-'' @ b
                @ (if d_less (Fin 0) ?s then str_straight @ fixed1 ?s @ ''km'' else [])
                @ '')'')"
    by (simp add: calculateSegment_found [OF assms])
  obtain t where t: "?t = Fin t" "\<bar>of_int k - t\<bar> \<le> 1 / 2" and r: "std_round ?t = Fin (of_int k)"
    using to_int_std_round [OF assms(4)] by blast
  have fin: "\<exists>x. ?d = Fin x"
    using t(1) by (rule minutes_finite)
  have zero: "?s = Fin 0 \<or> ?s = NaN \<longrightarrow> \<not> d_less (Fin 0) ?s"
    by auto
  have pos: "libm_accurate m \<and> d_less (Fin 0) ?s \<longrightarrow> (\<exists>v. ?s = Fin v \<and> 0 < v)"
    using calcStraightDist_finite [of m "lat st1" "lon st1" "lat st2" "lon st2"]
    by (cases ?s) auto
  show ?thesis
    using out t r fin zero pos fixed1_value by blast
qed

text \<open>Gyeyang to Magongnaru on line arex: 9.5 km, 10 minutes, 8.2 km in a straight line.\<close>

theorem segment_rendering_witness:
  "fst (calculateSegment libm_exact (loadData Subway_init csv_file_name) st_gyeyang st_magongnaru
         ''arex'')
     = Inr (''9.5km(10'' @ str_minutes @ st_gyeyang @ ''-'' @ st_magongnaru @ str_straight
            @ ''8.2km)'')
   \<and> d_mul (d_div (d_abs (d_sub (rnd 0.0) (rnd 9.5))) (rnd 60)) (rnd 60.0) = Fin 9.5
   \<and> d_less (Fin 0) (calcStraightDist libm_exact (rnd 37.571) (rnd 126.736) (rnd 37.567) (rnd 126.829))"
proof -
  have k: "to_int (std_round (d_mul (d_div (d_abs (d_sub
             (distFromStart \<lparr>name = st_gyeyang, distFromStart = rnd 0.0, lat = rnd 37.571, lon = rnd 126.736\<rparr>)
             (distFromStart \<lparr>name = st_magongnaru, distFromStart = rnd 9.5, lat = rnd 37.567, lon = rnd 126.829\<rparr>)))
             (avgSpeed arex_line)) (rnd 60.0))) = Inr 10"
    by (simp add: avgSpeed_arex fp_eval)
  have d: "fixed1 (d_abs (d_sub (rnd 0.0) (rnd 9.5))) = ''9.5''"
    by (simp add: render_defs)
  have p: "d_less (Fin 0) (calcStraightDist libm_exact (rnd 37.571) (rnd 126.736) (rnd 37.567) (rnd 126.829))"
    using libm_exact_accurate by (rule built_in_distance_pos)
  have "fst (calculateSegment libm_exact (loadData Subway_init csv_file_name) st_gyeyang
              st_magongnaru ''arex'')
     = Inr (''9.5km(10'' @ str_minutes @ st_gyeyang @ ''-'' @ st_magongnaru @ str_straight
            @ fixed1 (calcStraightDist libm_exact (rnd 37.571) (rnd 126.736) (rnd 37.567) (rnd 126.829))
            @ ''km)'')"
    using segment_rendering [OF lines_arex arex_gyeyang arex_magongnaru k, of libm_exact] p d
    by (simp add: string_of_int_def string_of_nat.simps digit_char_def)
  then show ?thesis
    using p arex_minutes
    by (simp only: built_in_distance_text [OF libm_exact_accurate] append.simps simp_thms)
qed

text \<open>
  The claim as the specification states it, with the straight-line part left out exactly
  when the straight-line distance is 0, fails. Between the two stations of \<open>far_network\<close>
  the difference of the latitudes overflows to an infinity, whose sine is NaN, and the
  distance is NaN: it is not 0, and the rendering has no straight-line part. The library
  plays no part in it (\<open>far_distance\<close> and \<open>far_segment\<close> hold for every library).
\<close>

theorem segment_rendering_counterexample:
  "lines far_network ''far'' = Some far_line
   \<and> findStation far_line ''A''
       = Some \<lparr>name = ''A'', distFromStart = rnd 0.0, lat = Fin (2 ^ 1023), lon = rnd 1.0\<rparr>
   \<and> findStation far_line ''B''
       = Some \<lparr>name = ''B'', distFromStart = rnd 9.5, lat = Fin (- (2 ^ 1023)), lon = rnd 1.0\<rparr>
   \<and> d_sub (Fin (- (2 ^ 1023))) (Fin (2 ^ 1023)) = NInf
   \<and> calcStraightDist libm_exact (Fin (2 ^ 1023)) (rnd 1.0) (Fin (- (2 ^ 1023))) (rnd 1.0) = NaN
   \<and> \<not> d_eq (calcStraightDist libm_exact (Fin (2 ^ 1023)) (rnd 1.0) (Fin (- (2 ^ 1023))) (rnd 1.0))
           (Fin 0)
   \<and> fst (calculateSegment libm_exact far_network ''A'' ''B'' ''far'')
       = Inr (''9.5km(10'' @ str_minutes @ ''A-B)'')"
proof -
  have "\<not> d_eq (calcStraightDist libm_exact (Fin (2 ^ 1023)) (rnd 1.0) (Fin (- (2 ^ 1023))) (rnd 1.0))
           (Fin 0)"
    by (simp only: far_distance d_eq_def simp_thms)
  then show ?thesis
    using far_stations(1-3) far_difference far_distance [of libm_exact] far_segment [of libm_exact]
    by blast
qed

text \<open>
  Claim C5. The track distance between two stations of a line is the absolute value of
  the difference of their distances from the start of the line, computed in the format:
  for finite distances it is the double nearest to the absolute value of the exact
  difference. It is the same in both directions, and so are the rendered distance and the
  minutes when the two names are swapped.
\<close>

theorem track_distance_symmetric:
  assumes "lines sw tag = Some l"
    and "findStation l a = Some sa" and "findStation l b = Some sb"
    and "to_int (std_round (d_mul (d_div (d_abs (d_sub (distFromStart sa) (distFromStart sb)))
                                         (avgSpeed l)) (rnd 60.0))) = Inr k"
  shows "d_abs (d_sub (distFromStart sa) (distFromStart sb))
           = d_abs (d_sub (distFromStart sb) (distFromStart sa))
         \<and> (\<forall>x y. distFromStart sa = Fin x \<and> distFromStart sb = Fin y
              \<longrightarrow> d_abs (d_sub (distFromStart sa) (distFromStart sb)) = rnd \<bar>x - y\<bar>)
         \<and> (\<exists>rest rest'.
              fst (calculateSegment m sw a b tag)
                = Inr (fixed1 (d_abs (d_sub (distFromStart sa) (distFromStart sb))) @ ''km(''
                       @ string_of_int k @ str_minutes @ a @ ''-'' @ b @ rest)
            \<and> fst (calculateSegment m sw b a tag)
                = Inr (fixed1 (d_abs (d_sub (distFromStart sa) (distFromStart sb))) @ ''km(''
                       @ string_of_int k @ str_minutes @ b @ ''-'' @ a @ rest'))"
proof -
  have sym: "d_abs (d_sub (distFromStart sa) (distFromStart sb))
      = d_abs (d_sub (distFromStart sb) (distFromStart sa))"
    by (rule d_abs_sub_swap)
  have k': "to_int (std_round (d_mul (d_div (d_abs (d_sub (distFromStart sb) (distFromStart sa)))
                                            (avgSpeed l)) (rnd 60.0))) = Inr k"
    using assms(4) by (simp only: sym)
  have "d_abs (d_sub (Fin x) (Fin y)) = rnd \<bar>x - y\<bar>" for x y
    by (simp add: d_sub_def d_abs_rnd)
  then show ?thesis
    unfolding calculateSegment_found [OF assms]
      calculateSegment_found [OF assms(1) assms(3) assms(2) k']
    by (simp add: sym)
qed

text \<open>Gyeyang to Magongnaru and back.\<close>

theorem track_distance_symmetric_witness:
  "d_abs (d_sub (rnd 0.0) (rnd 9.5)) = Fin 9.5
   \<and> d_abs (d_sub (rnd 9.5) (rnd 0.0)) = Fin 9.5
   \<and> (\<exists>rest rest'.
      fst (calculateSegment libm_exact (loadData Subway_init csv_file_name) st_gyeyang
             st_magongnaru ''arex'')
        = Inr (''9.5km(10'' @ str_minutes @ st_gyeyang @ ''-'' @ st_magongnaru @ rest)
    \<and> fst (calculateSegment libm_exact (loadData Subway_init csv_file_name) st_magongnaru
             st_gyeyang ''arex'')
        = Inr (''9.5km(10'' @ str_minutes @ st_magongnaru @ ''-'' @ st_gyeyang @ rest'))"
proof -
  have k: "to_int (std_round (d_mul (d_div (d_abs (d_sub
             (distFromStart \<lparr>name = st_gyeyang, distFromStart = rnd 0.0, lat = rnd 37.571, lon = rnd 126.736\<rparr>)
             (distFromStart \<lparr>name = st_magongnaru, distFromStart = rnd 9.5, lat = rnd 37.567, lon = rnd 126.829\<rparr>)))
             (avgSpeed arex_line)) (rnd 60.0))) = Inr 10"
    by (simp add: avgSpeed_arex fp_eval)
  have d: "d_abs (d_sub (rnd 0.0) (rnd 9.5)) = Fin 9.5" "d_abs (d_sub (rnd 9.5) (rnd 0.0)) = Fin 9.5"
    by (simp_all add: fp_eval)
  have fx: "fixed1 (d_abs (d_sub (rnd 0.0) (rnd 9.5))) = ''9.5''"
    by (simp add: render_defs)
  have "\<exists>rest rest'.
      fst (calculateSegment libm_exact (loadData Subway_init csv_file_name) st_gyeyang
             st_magongnaru ''arex'')
        = Inr (''9.5km(10'' @ str_minutes @ st_gyeyang @ ''-'' @ st_magongnaru @ rest)
    \<and> fst (calculateSegment libm_exact (loadData Subway_init csv_file_name) st_magongnaru
             st_gyeyang ''arex'')
        = Inr (''9.5km(10'' @ str_minutes @ st_magongnaru @ ''-'' @ st_gyeyang @ rest')"
    using track_distance_symmetric [OF lines_arex arex_gyeyang arex_magongnaru k, of libm_exact,
        THEN conjunct2, THEN conjunct2] fx
    by (simp add: string_of_int_def string_of_nat.simps digit_char_def)
  with d show ?thesis
    by simp
qed

text \<open>
  Claim C6. \<open>calcStraightDist\<close> returns 0 when one of the two latitudes is 0, whatever
  the mathematical library: the formula is not evaluated. Hence a segment with an endpoint
  whose latitude is 0 (a station without coordinates) has the straight-line distance 0,
  and its rendering ends after the two names: it has no straight-line part.
\<close>

theorem missing_coordinates:
  assumes "lines sw tag = Some l"
    and "findStation l a = Some st1" and "findStation l b = Some st2"
    and "d_eq (lat st1) (Fin 0) \<or> d_eq (lat st2) (Fin 0)"
    and "to_int (std_round (d_mul (d_div (d_abs (d_sub (distFromStart st1) (distFromStart st2)))
                                         (avgSpeed l)) (rnd 60.0))) = Inr k"
  shows "(d_eq la (Fin 0) \<or> d_eq la' (Fin 0) \<longrightarrow> calcStraightDist m la lo la' lo' = Fin 0)
         \<and> calcStraightDist m (lat st1) (lon st1) (lat st2) (lon st2) = Fin 0
         \<and> fst (calculateSegment m sw a b tag) =
             Inr (fixed1 (d_abs (d_sub (distFromStart st1) (distFromStart st2))) @ ''km(''
                  @ string_of_int k @ str_minutes @ a @ ''-'' @ b @ '')'')"
proof -
  have "calcStraightDist m (lat st1) (lon st1) (lat st2) (lon st2) = Fin 0"
    using assms(4) by (auto simp: calcStraightDist_def rnd_zero)
  then show ?thesis
    by (auto simp: calculateSegment_found [OF assms(1-3) assms(5)] calcStraightDist_def rnd_zero)
qed

text \<open>Gaehwa has no coordinates, Gimpo Airport has.\<close>

theorem missing_coordinates_witness:
  "calcStraightDist libm_exact (Fin 0) (Fin 0) (rnd 37.562) (rnd 126.801) = Fin 0
   \<and> fst (calculateSegment libm_exact (loadData Subway_init csv_file_name) st_gaehwa
            st_gimpo_airport ''9'')
       = Inr (''3.6km(5'' @ str_minutes @ st_gaehwa @ ''-'' @ st_gimpo_airport @ '')'')"
proof -
  have k: "to_int (std_round (d_mul (d_div (d_abs (d_sub
             (distFromStart \<lparr>name = st_gaehwa, distFromStart = rnd 0.0, lat = rnd 0.0, lon = rnd 0.0\<rparr>)
             (distFromStart \<lparr>name = st_gimpo_airport, distFromStart = rnd 3.6, lat = rnd 37.562, lon = rnd 126.801\<rparr>)))
             (avgSpeed line9)) (rnd 60.0))) = Inr 5"
    by (simp add: avgSpeed_9 fp_eval)
  have z: "d_eq (lat \<lparr>name = st_gaehwa, distFromStart = rnd 0.0, lat = rnd 0.0, lon = rnd 0.0\<rparr>) (Fin 0)
      \<or> d_eq (lat \<lparr>name = st_gimpo_airport, distFromStart = rnd 3.6, lat = rnd 37.562, lon = rnd 126.801\<rparr>) (Fin 0)"
    by (simp add: d_eq_def rnd_zero)
  have d: "fixed1 (d_abs (d_sub (rnd 0.0) (rnd 3.6))) = ''3.6''"
    by (simp add: render_defs)
  show ?thesis
    using missing_coordinates [OF lines_9 line9_gaehwa line9_gimpo_airport z k,
      where m = libm_exact and la = "Fin 0" and lo = "Fin 0" and la' = "rnd 37.562"
        and lo' = "rnd 126.801"] d
    by (simp add: d_eq_def string_of_int_def string_of_nat.simps digit_char_def)
qed

text \<open>
  Claim C7. In the built-in data Gyeyang is at distance 0.0 and (37.571, 126.736),
  Magongnaru at distance 9.5 and (37.567, 126.829), and line arex runs at 60 km/h. The
  segment from Gyeyang to Magongnaru succeeds and reports 9.5 km and 10 minutes, whatever
  the mathematical library: the double \<open>(9.5 / 60) * 60\<close> is 9.5. Its straight-line
  distance is the value of the haversine formula at the two pairs of coordinates; with
  every mathematical library that is accurate it is greater than 0 and is printed, as
  \<open>8.2\<close>.
\<close>

theorem built_in_example:
  "findStation arex_line st_gyeyang
     = Some \<lparr>name = st_gyeyang, distFromStart = rnd 0.0, lat = rnd 37.571, lon = rnd 126.736\<rparr>
   \<and> findStation arex_line st_magongnaru
     = Some \<lparr>name = st_magongnaru, distFromStart = rnd 9.5, lat = rnd 37.567, lon = rnd 126.829\<rparr>
   \<and> avgSpeed arex_line = rnd 60
   \<and> d_abs (d_sub (rnd 0.0) (rnd 9.5)) = Fin 9.5
   \<and> std_round (d_mul (d_div (Fin 9.5) (rnd 60)) (rnd 60.0)) = Fin 10
   \<and> (\<exists>rest. fst (calculateSegment m (loadData Subway_init csv_file_name) st_gyeyang
                     st_magongnaru ''arex'')
          = Inr (''9.5km(10'' @ str_minutes @ st_gyeyang @ ''-'' @ st_magongnaru @ rest))
   \<and> calcStraightDist m (rnd 37.571) (rnd 126.736) (rnd 37.567) (rnd 126.829)
     = d_mul R (d_mul (Fin 2) (std_atan2 m
         (d_sqrt (d_add
            (d_mul (std_sin m (d_div (toRad (d_sub (rnd 37.567) (rnd 37.571))) (Fin 2)))
                   (std_sin m (d_div (toRad (d_sub (rnd 37.567) (rnd 37.571))) (Fin 2))))
            (d_mul (d_mul (d_mul (std_cos m (toRad (rnd 37.571))) (std_cos m (toRad (rnd 37.567))))
                          (std_sin m (d_div (toRad (d_sub (rnd 126.829) (rnd 126.736))) (Fin 2))))
                   (std_sin m (d_div (toRad (d_sub (rnd 126.829) (rnd 126.736))) (Fin 2))))))
         (d_sqrt (d_sub (Fin 1) (d_add
            (d_mul (std_sin m (d_div (toRad (d_sub (rnd 37.567) (rnd 37.571))) (Fin 2)))
                   (std_sin m (d_div (toRad (d_sub (rnd 37.567) (rnd 37.571))) (Fin 2))))
            (d_mul (d_mul (d_mul (std_cos m (toRad (rnd 37.571))) (std_cos m (toRad (rnd 37.567))))
                          (std_sin m (d_div (toRad (d_sub (rnd 126.829) (rnd 126.736))) (Fin 2))))
                   (std_sin m (d_div (toRad (d_sub (rnd 126.829) (rnd 126.736))) (Fin 2)))))))))
   \<and> (libm_accurate m \<longrightarrow>
        fst (calculateSegment m (loadData Subway_init csv_file_name) st_gyeyang st_magongnaru ''arex'')
          = Inr (''9.5km(10'' @ str_minutes @ st_gyeyang @ ''-'' @ st_magongnaru @ str_straight
                 @ ''8.2km)'')
        \<and> fixed1 (calcStraightDist m (rnd 37.571) (rnd 126.736) (rnd 37.567) (rnd 126.829)) = ''8.2''
        \<and> d_less (Fin 0) (calcStraightDist m (rnd 37.571) (rnd 126.736) (rnd 37.567) (rnd 126.829)))"
proof -
  have d: "d_abs (d_sub (rnd 0.0) (rnd 9.5)) = Fin 9.5"
    by (simp add: fp_eval)
  have r: "std_round (d_mul (d_div (Fin 9.5) (rnd 60)) (rnd 60.0)) = Fin 10"
    by (simp add: fp_eval)
  have l1: "d_eq (rnd 37.571) (Fin 0) = False" "d_eq (rnd 37.567) (Fin 0) = False"
    by (simp_all add: d_eq_def fp_eval)
  have f: "calcStraightDist m (rnd 37.571) (rnd 126.736) (rnd 37.567) (rnd 126.829)
     = d_mul R (d_mul (Fin 2) (std_atan2 m
         (d_sqrt (d_add
            (d_mul (std_sin m (d_div (toRad (d_sub (rnd 37.567) (rnd 37.571))) (Fin 2)))
                   (std_sin m (d_div (toRad (d_sub (rnd 37.567) (rnd 37.571))) (Fin 2))))
            (d_mul (d_mul (d_mul (std_cos m (toRad (rnd 37.571))) (std_cos m (toRad (rnd 37.567))))
                          (std_sin m (d_div (toRad (d_sub (rnd 126.829) (rnd 126.736))) (Fin 2))))
                   (std_sin m (d_div (toRad (d_sub (rnd 126.829) (rnd 126.736))) (Fin 2))))))
         (d_sqrt (d_sub (Fin 1) (d_add
            (d_mul (std_sin m (d_div (toRad (d_sub (rnd 37.567) (rnd 37.571))) (Fin 2)))
                   (std_sin m (d_div (toRad (d_sub (rnd 37.567) (rnd 37.571))) (Fin 2))))
            (d_mul (d_mul (d_mul (std_cos m (toRad (rnd 37.571))) (std_cos m (toRad (rnd 37.567))))
                          (std_sin m (d_div (toRad (d_sub (rnd 126.829) (rnd 126.736))) (Fin 2))))
                   (std_sin m (d_div (toRad (d_sub (rnd 126.829) (rnd 126.736))) (Fin 2)))))))))"
    by (simp only: calcStraightDist_def Let_def l1 simp_thms if_False)
  have p: "\<exists>rest. fst (calculateSegment m (loadData Subway_init csv_file_name) st_gyeyang
                     st_magongnaru ''arex'')
          = Inr (''9.5km(10'' @ str_minutes @ st_gyeyang @ ''-'' @ st_magongnaru @ rest)"
    by (rule arex_segment_start)
  have a: "libm_accurate m \<longrightarrow>
        fst (calculateSegment m (loadData Subway_init csv_file_name) st_gyeyang st_magongnaru ''arex'')
          = Inr (''9.5km(10'' @ str_minutes @ st_gyeyang @ ''-'' @ st_magongnaru @ str_straight
                 @ ''8.2km)'')
        \<and> fixed1 (calcStraightDist m (rnd 37.571) (rnd 126.736) (rnd 37.567) (rnd 126.829)) = ''8.2''
        \<and> d_less (Fin 0) (calcStraightDist m (rnd 37.571) (rnd 126.736) (rnd 37.567) (rnd 126.829))"
    using built_in_distance_pos [of m] built_in_distance_text [of m] arex_segment [of m]
    by simp
  show ?thesis
    by (intro conjI arex_gyeyang arex_magongnaru avgSpeed_arex d r p f a)
qed

text \<open>The library that returns the nearest value of the format is accurate.\<close>

theorem built_in_example_witness:
  "libm_accurate libm_exact
   \<and> fst (calculateSegment libm_exact (loadData Subway_init csv_file_name) st_gyeyang
            st_magongnaru ''arex'')
     = Inr (''9.5km(10'' @ str_minutes @ st_gyeyang @ ''-'' @ st_magongnaru @ str_straight
            @ ''8.2km)'')
   \<and> fixed1 (calcStraightDist libm_exact (rnd 37.571) (rnd 126.736) (rnd 37.567) (rnd 126.829))
     = ''8.2''"
  using built_in_example [of libm_exact] libm_exact_accurate by blast

text \<open>
  Claim C8, amended. When the line exists and a station name is not on it, the result is
  one fixed message followed by both names, \<open>(start or end)\<close>, whichever of the two is
  missing. The message does not tell which name failed.
\<close>

theorem station_error_text:
  assumes "lines sw tag = Some l" and "findStation l a = None \<or> findStation l b = None"
  shows "fst (calculateSegment m sw a b tag) = Inr (msg_no_station @ a @ '' or '' @ b @ '')'')"
  using assms by (simp add: calculateSegment_no_station)

text \<open>Gayang is not on line arex.\<close>

theorem station_error_text_witness:
  "findStation arex_line st_gayang = None
   \<and> fst (calculateSegment libm_exact (loadData Subway_init csv_file_name) st_gyeyang st_gayang ''arex'')
     = Inr (msg_no_station @ st_gyeyang @ '' or '' @ st_gayang @ '')'')"
proof -
  have n: "findStation arex_line st_gayang = None"
    by (simp add: findStation_def data_defs)
  then show ?thesis
    using station_error_text [OF lines_arex, of st_gyeyang st_gayang libm_exact] by simp
qed

text \<open>
  On line arex Gyeyang is found and Gayang is not; on line 9 it is the other way round.
  The two queries return the same string.
\<close>

theorem station_error_counterexample:
  "findStation arex_line st_gyeyang \<noteq> None \<and> findStation arex_line st_gayang = None
   \<and> findStation line9 st_gyeyang = None \<and> findStation line9 st_gayang \<noteq> None
   \<and> fst (calculateSegment libm_exact (loadData Subway_init csv_file_name) st_gyeyang st_gayang ''arex'')
     = fst (calculateSegment libm_exact (loadData Subway_init csv_file_name) st_gyeyang st_gayang ''9'')"
proof -
  have "findStation arex_line st_gayang = None" "findStation line9 st_gyeyang = None"
    by (simp_all add: findStation_def data_defs)
  then show ?thesis
    by (simp add: arex_gyeyang line9_gayang
        calculateSegment_no_station [OF lines_arex] calculateSegment_no_station [OF lines_9])
qed

text \<open>
  Claim C9. \<open>parseToken\<close> returns a pair of a name and a line tag for every token,
  whatever the order and the number of its parentheses: it never throws. It returns the
  whole token with an empty tag exactly when \<open>(\<close> or \<open>)\<close> is absent; a token
  with both is split at the first \<open>(\<close> also when a \<open>)\<close> precedes it.
\<close>

theorem parseToken_total:
  assumes "length t < 2 ^ 64"
  shows "(\<exists>nm tag. parseToken t = Inr (nm, tag))
         \<and> (parseToken t = Inr (t, []) \<longleftrightarrow> CHR ''('' \<notin> set t \<or> CHR '')'' \<notin> set t)
         \<and> (CHR ''('' \<in> set t \<and> CHR '')'' \<in> set t
              \<longrightarrow> (\<exists>tag. parseToken t = Inr (spec_name_before t, tag)))"
proof (cases "CHR ''('' \<in> set t \<and> CHR '')'' \<in> set t")
  case False
  then show ?thesis
    by (auto simp: parseToken_absent)
next
  case True
  then have "spec_first_index (CHR ''('') t < length t"
    by (simp add: spec_first_index_less)
  then have "spec_name_before t \<noteq> t"
    by (simp add: spec_name_before_def)
  then show ?thesis
    using assms True by (auto simp: parseToken_present)
qed

text \<open>A token whose parentheses are reversed.\<close>

theorem parseToken_total_witness:
  "length '')a(b'' < 2 ^ 64
   \<and> (\<exists>nm tag. parseToken '')a(b'' = Inr (nm, tag))
   \<and> parseToken '')a(b'' \<noteq> Inr ('')a(b'', [])
   \<and> (\<exists>tag. parseToken '')a(b'' = Inr ('')a'', tag))"
  using parseToken_total [of "'')a(b''"]
  by (simp add: spec_defs)

text \<open>
  Claim C10. \<open>calculateSegment\<close> leaves the \<open>Subway\<close> object, that is the map
  \<open>lines\<close> with every line in it, as it was, for all arguments.
\<close>

theorem calculateSegment_pure: "snd (calculateSegment m sw a b tag) = sw"
  by (rule calculateSegment_frame)

end
